theory Spec2Isabelle
  imports Complex_Main
begin

section \<open>The remote inventory\<close>

text \<open>
  Both \<^verbatim>\<open>server.py\<close> and \<^verbatim>\<open>app/main.py\<close> talk to vCenter through pyVmomi: every
  inventory object is a managed-object reference whose class is known locally
  (\<^verbatim>\<open>isinstance\<close> needs no round trip) and whose properties are fetched from the
  server on each attribute access.  The model keeps the server's objects in a store from
  references to property records; a reference the store no longer holds is an object that
  has been removed on the server, and reading any property of it raises
  \<^verbatim>\<open>ManagedObjectNotFound\<close>.
\<close>

datatype mo_type =
    Folder | Datacenter | ComputeResource | ClusterComputeResource | HostSystem
  | ResourcePool | Datastore | Network | DistributedVirtualPortgroup | VirtualMachine

datatype moref = MoRef (mo_type: mo_type) (mo_id: nat)

text \<open>\<^verbatim>\<open>isinstance(obj, cls)\<close>: the class of the reference or one of its subclasses.\<close>

fun isinstance :: "moref \<Rightarrow> mo_type \<Rightarrow> bool" where
  "isinstance r ComputeResource =
     (mo_type r = ComputeResource \<or> mo_type r = ClusterComputeResource)"
| "isinstance r Network = (mo_type r = Network \<or> mo_type r = DistributedVirtualPortgroup)"
| "isinstance r t = (mo_type r = t)"

datatype power_state = poweredOff | poweredOn | suspended

datatype device = VirtualEthernetCard (macAddress: string) | OtherDevice

record vm_config =
  hardware :: "device list option"

text \<open>
  One property record serves every class; a class reads only its own properties
  (\<^verbatim>\<open>childEntity\<close> of a folder, \<^verbatim>\<open>summary.freeSpace\<close> of a datastore,
  \<^verbatim>\<open>runtime.host\<close> of a virtual machine, and so on).
\<close>

record mobject =
  name :: string
  parent :: "moref option"
  childEntity :: "moref list"
  hostFolder :: moref
  datastoreFolder :: moref
  networkFolder :: moref
  vmFolder :: moref
  resourcePool :: "moref option"
  freeSpace :: int
  runtime_host :: "moref option"
  powerState :: power_state
  config :: "vm_config option"
  overallCpuUsage :: int
  guestMemoryUsage :: int
  storage_committed :: "int option"
  portgroup_key :: string
  switch_uuid :: string

datatype exn =
    Exception string
  | MethodFault string
  | ManagedObjectNotFound moref
  | TypeError
  | IndexError
  | AttributeError

datatype log_record =
    LogInfo string
  | LogWarning string exn
  | LogError string exn

subsection \<open>Requests sent to the server\<close>

datatype nic_backing =
    NetworkBackingInfo moref string
  | DistributedVirtualPortBackingInfo string string

datatype device_spec =
    AddSCSIController int
  | AddDisk int moref int
  | AddVmxnet3 string "nic_backing option"

record config_spec =
  cs_name :: string
  cs_memoryMB :: int
  cs_numCPUs :: int
  cs_guestId :: string
  cs_deviceChange :: "device_spec list"

datatype task_request =
    CreateVM_Task moref config_spec moref
  | Clone_Task moref moref string moref moref
  | Destroy_Task moref
  | PowerOnVM_Task moref
  | PowerOffVM_Task moref

datatype task_state = queued | running | success | error

record task_info =
  state :: task_state
  error_fault :: "exn option"

record perf_counter =
  pc_key :: int
  pc_group :: string
  pc_name :: string
  pc_rollup :: string

record metric_series =
  counterId :: int
  series_value :: "int list"

record query_spec =
  maxSample :: int
  entity :: moref
  metricId :: "(int \<times> string) list"

text \<open>
  The world is the server as the client sees it, together with the client's log:
  \<^item> \<open>objs\<close>: the inventory store;
  \<^item> \<open>vm_view\<close>: what a recursive container view of virtual machines below the root
    folder lists, in the server's order;
  \<^item> \<open>open_views\<close>: the number of container-view handles alive on the server;
  \<^item> \<open>submitted\<close>: the tasks submitted so far; a task handle is its position here;
  \<^item> \<open>task_reads h k\<close>: what the \<open>k\<close>-th read of \<^verbatim>\<open>task.info\<close> on handle \<open>h\<close> returns;
  \<^item> \<open>perfCounter\<close>, \<open>QueryStats\<close>: the answers of the performance manager;
  \<^item> \<open>connect_fault\<close>: the outcome of \<^verbatim>\<open>SmartConnect\<close>;
  \<^item> \<open>logged\<close>: the records written through \<^verbatim>\<open>logging\<close>.
\<close>

record world =
  objs :: "moref \<rightharpoonup> mobject"
  rootFolder :: moref
  vm_view :: "moref list"
  open_views :: nat
  submitted :: "task_request list"
  task_reads :: "nat \<Rightarrow> nat \<Rightarrow> task_info"
  perfCounter :: "exn + perf_counter list"
  QueryStats :: "query_spec \<Rightarrow> exn + (metric_series list) list"
  connect_fault :: "exn option"
  logged :: "log_record list"

definition fetch :: "world \<Rightarrow> moref \<Rightarrow> exn + mobject" where
  "fetch w r = (case objs w r of None \<Rightarrow> Inl (ManagedObjectNotFound r) | Some ob \<Rightarrow> Inr ob)"

definition CreateContainerView :: "world \<Rightarrow> world" where
  "CreateContainerView w = w\<lparr>open_views := Suc (open_views w)\<rparr>"

definition Destroy :: "world \<Rightarrow> world" where
  "Destroy w = w\<lparr>open_views := open_views w - 1\<rparr>"

section \<open>Ancestor resolution (app/main.py)\<close>

record parent_info =
  datacenter :: string
  cluster :: string

text \<open>
  Step 1 of \<^verbatim>\<open>_get_parent_info\<close>: the cluster of the VM's host, or the host's own name.
\<close>

definition cluster_or_host :: "world \<Rightarrow> moref option \<Rightarrow> exn + string" where
  "cluster_or_host w cur =
     (case cur of
        None \<Rightarrow> Inr ''Unknown''
      | Some h \<Rightarrow>
          (case fetch w h of
             Inl e \<Rightarrow> Inl e
           | Inr host \<Rightarrow>
               (case parent host of
                  None \<Rightarrow> Inr (name host)
                | Some p \<Rightarrow>
                    if isinstance p ClusterComputeResource
                    then (case fetch w p of Inl e \<Rightarrow> Inl e | Inr cl \<Rightarrow> Inr (name cl))
                    else Inr (name host))))"

text \<open>
  Step 2, the loop \<^verbatim>\<open>while curr: ... curr = curr.parent\<close>.  It has no hop counter, so
  it is a partial function: \<open>None\<close> means that the loop does not return.
\<close>

partial_function (option) find_datacenter :: "world \<Rightarrow> moref option \<Rightarrow> (exn + string) option"
where
  "find_datacenter w cur =
     (case cur of
        None \<Rightarrow> Some (Inr ''Unknown'')
      | Some r \<Rightarrow>
          (case fetch w r of
             Inl e \<Rightarrow> Some (Inl e)
           | Inr ob \<Rightarrow>
               if isinstance r Datacenter then Some (Inr (name ob))
               else find_datacenter w (parent ob)))"

definition get_parent_info :: "world \<Rightarrow> moref \<Rightarrow> (exn + parent_info) option" where
  "get_parent_info w vm =
     (case fetch w vm of
        Inl e \<Rightarrow> Some (Inl e)
      | Inr vmo \<Rightarrow>
          (case cluster_or_host w (runtime_host vmo) of
             Inl e \<Rightarrow> Some (Inl e)
           | Inr cl \<Rightarrow>
               (case find_datacenter w (parent vmo) of
                  None \<Rightarrow> None
                | Some (Inl e) \<Rightarrow> Some (Inl e)
                | Some (Inr dc) \<Rightarrow> Some (Inr \<lparr>datacenter = dc, cluster = cl\<rparr>))))"

section \<open>MAC fingerprint matching (app/main.py)\<close>

text \<open>
  \<^verbatim>\<open>re.sub(r'[^a-fA-F0-9]', '', mac).lower()\<close>: keep the hexadecimal digits, then
  lowercase.  Only ASCII letters are left when \<^verbatim>\<open>lower\<close> runs.
\<close>

definition is_hex :: "char \<Rightarrow> bool" where
  "is_hex c = (c \<in> set ''0123456789abcdefABCDEF'')"

definition lower_char :: "char \<Rightarrow> char" where
  "lower_char c =
     (let n = (of_char c :: nat) in if 65 \<le> n \<and> n \<le> 90 then char_of (n + 32) else c)"

definition clean_mac :: "string \<Rightarrow> string" where
  "clean_mac mac = map lower_char (filter is_hex mac)"

definition found_text :: "string \<Rightarrow> parent_info \<Rightarrow> string \<Rightarrow> string" where
  "found_text vm_name loc_info mac =
     ''Found VM: '' @ vm_name @ [CHR 0x0A] @
     ''Datacenter: '' @ datacenter loc_info @ [CHR 0x0A] @
     ''Cluster/Host: '' @ cluster loc_info @ [CHR 0x0A] @
     ''MAC Address: '' @ mac"

text \<open>
  The inner loop over \<^verbatim>\<open>vm.config.hardware.device\<close>.  The value is the variable
  \<^verbatim>\<open>result\<close> when the loop ends (\<open>Inr None\<close>: still \<^verbatim>\<open>None\<close>), an exception, or
  \<open>None\<close> when \<^verbatim>\<open>_get_parent_info\<close> does not return.
\<close>

fun scan_devices ::
  "world \<Rightarrow> moref \<Rightarrow> mobject \<Rightarrow> string \<Rightarrow> device list \<Rightarrow> (exn + string option) option"
where
  "scan_devices w vm vmo clean_target [] = Some (Inr None)"
| "scan_devices w vm vmo clean_target (OtherDevice # ds) =
     scan_devices w vm vmo clean_target ds"
| "scan_devices w vm vmo clean_target (VirtualEthernetCard mac # ds) =
     (if clean_mac mac = clean_target then
        (case get_parent_info w vm of
           None \<Rightarrow> None
         | Some (Inl e) \<Rightarrow> Some (Inl e)
         | Some (Inr loc_info) \<Rightarrow> Some (Inr (Some (found_text (name vmo) loc_info mac))))
      else scan_devices w vm vmo clean_target ds)"

text \<open>The outer loop \<^verbatim>\<open>for vm in container.view\<close>.\<close>

fun scan_view :: "world \<Rightarrow> string \<Rightarrow> moref list \<Rightarrow> (exn + string option) option" where
  "scan_view w clean_target [] = Some (Inr None)"
| "scan_view w clean_target (vm # vms) =
     (case fetch w vm of
        Inl e \<Rightarrow> Some (Inl e)
      | Inr vmo \<Rightarrow>
          (case config vmo of
             None \<Rightarrow> scan_view w clean_target vms
           | Some cfg \<Rightarrow>
               (case hardware cfg of
                  None \<Rightarrow> scan_view w clean_target vms
                | Some devs \<Rightarrow>
                    (case scan_devices w vm vmo clean_target devs of
                       None \<Rightarrow> None
                     | Some (Inl e) \<Rightarrow> Some (Inl e)
                     | Some (Inr (Some res)) \<Rightarrow> Some (Inr (Some res))
                     | Some (Inr None) \<Rightarrow> scan_view w clean_target vms))))"

text \<open>
  The \<^verbatim>\<open>try\<close> ... \<^verbatim>\<open>finally\<close> block: the view is destroyed whether the scan ends with
  a value or with an exception.  The value is \<^verbatim>\<open>result\<close> after the block.
\<close>

definition find_vm_by_mac_result ::
  "world \<Rightarrow> string \<Rightarrow> ((exn + string option) \<times> world) option"
where
  "find_vm_by_mac_result w target_mac =
     (let clean_target = clean_mac target_mac;
          w1 = CreateContainerView w
      in case scan_view w1 clean_target (vm_view w1) of
           None \<Rightarrow> None
         | Some r \<Rightarrow> Some (r, Destroy w1))"

definition find_vm_by_mac :: "world \<Rightarrow> string \<Rightarrow> ((exn + string) \<times> world) option" where
  "find_vm_by_mac w target_mac =
     (case find_vm_by_mac_result w target_mac of
        None \<Rightarrow> None
      | Some (Inl e, w') \<Rightarrow> Some (Inl e, w')
      | Some (Inr (Some res), w') \<Rightarrow> Some (Inr res, w')
      | Some (Inr None, w') \<Rightarrow>
          Some (Inr (''No VM found with MAC address '' @ target_mac), w'))"

section \<open>Inventory traversals of server.py\<close>

fun vm_names :: "world \<Rightarrow> moref list \<Rightarrow> exn + string list" where
  "vm_names w [] = Inr []"
| "vm_names w (vm # vms) =
     (case fetch w vm of
        Inl e \<Rightarrow> Inl e
      | Inr vmo \<Rightarrow> (case vm_names w vms of Inl e \<Rightarrow> Inl e | Inr ns \<Rightarrow> Inr (name vmo # ns)))"

text \<open>
  \<^verbatim>\<open>list_vms\<close> and \<^verbatim>\<open>find_vm\<close> call \<^verbatim>\<open>container.Destroy()\<close> after the loop, outside
  any \<^verbatim>\<open>try\<close>: an exception raised in the loop leaves the function before that line.
\<close>

definition list_vms :: "world \<Rightarrow> (exn + string list) \<times> world" where
  "list_vms w =
     (let w1 = CreateContainerView w
      in case vm_names w1 (vm_view w1) of
           Inl e \<Rightarrow> (Inl e, w1)
         | Inr vm_list \<Rightarrow> (Inr vm_list, Destroy w1))"

fun first_named :: "world \<Rightarrow> string \<Rightarrow> moref list \<Rightarrow> exn + moref option" where
  "first_named w n [] = Inr None"
| "first_named w n (vm # vms) =
     (case fetch w vm of
        Inl e \<Rightarrow> Inl e
      | Inr vmo \<Rightarrow> if name vmo = n then Inr (Some vm) else first_named w n vms)"

definition find_vm :: "world \<Rightarrow> string \<Rightarrow> (exn + moref option) \<times> world" where
  "find_vm w n =
     (let w1 = CreateContainerView w
      in case first_named w1 n (vm_view w1) of
           Inl e \<Rightarrow> (Inl e, w1)
         | Inr vm_obj \<Rightarrow> (Inr vm_obj, Destroy w1))"

section \<open>Driving a task to completion (server.py)\<close>

text \<open>
  Every operation repeats the same lines after submitting its task:
  \<^verbatim>\<open>while task.info.state not in [success, error]: continue\<close>, then
  \<^verbatim>\<open>if task.info.state == error: raise task.info.error\<close>.  Each \<^verbatim>\<open>task.info\<close> is a
  new read from the server.  The loop has no timeout: \<open>wait_terminal reads k\<close> is the index
  of the read that ends the loop started at read \<open>k\<close>, and \<open>None\<close> when no read does.
\<close>

definition terminal :: "task_state \<Rightarrow> bool" where
  "terminal s = (s = success \<or> s = error)"

partial_function (option) wait_terminal :: "(nat \<Rightarrow> task_info) \<Rightarrow> nat \<Rightarrow> nat option" where
  "wait_terminal reads k =
     (if terminal (state (reads k)) then Some k else wait_terminal reads (Suc k))"

text \<open>
  After the loop the state is read once more for the test, and the info a third time for
  the \<^verbatim>\<open>raise\<close>; raising \<^verbatim>\<open>None\<close> is a \<^verbatim>\<open>TypeError\<close> in Python.
\<close>

definition await_task :: "(nat \<Rightarrow> task_info) \<Rightarrow> (exn + unit) option" where
  "await_task reads =
     (case wait_terminal reads 0 of
        None \<Rightarrow> None
      | Some k \<Rightarrow>
          if state (reads (k + 1)) = error
          then (case error_fault (reads (k + 2)) of
                  Some f \<Rightarrow> Some (Inl f)
                | None \<Rightarrow> Some (Inl TypeError))
          else Some (Inr ()))"

definition submit :: "world \<Rightarrow> task_request \<Rightarrow> nat \<times> world" where
  "submit w req = (length (submitted w), w\<lparr>submitted := submitted w @ [req]\<rparr>)"

definition log_add :: "log_record \<Rightarrow> world \<Rightarrow> world" where
  "log_add r w = w\<lparr>logged := logged w @ [r]\<rparr>"

definition sq :: string where
  "sq = [CHR 0x27]"

section \<open>Power operations and deletion (server.py)\<close>

definition power_on_vm :: "world \<Rightarrow> string \<Rightarrow> ((exn + string) \<times> world) option" where
  "power_on_vm w n =
     (case find_vm w n of
        (Inl e, w1) \<Rightarrow> Some (Inl e, w1)
      | (Inr None, w1) \<Rightarrow> Some (Inl (Exception (''Virtual machine '' @ n @ '' not found'')), w1)
      | (Inr (Some vm), w1) \<Rightarrow>
          (case fetch w1 vm of
             Inl e \<Rightarrow> Some (Inl e, w1)
           | Inr vmo \<Rightarrow>
               if powerState vmo = poweredOn
               then Some (Inr (''VM '' @ sq @ n @ sq @ '' is already powered on.''), w1)
               else
                 (case submit w1 (PowerOnVM_Task vm) of
                    (h, w2) \<Rightarrow>
                      (case await_task (task_reads w2 h) of
                         None \<Rightarrow> None
                       | Some (Inl e) \<Rightarrow> Some (Inl e, w2)
                       | Some (Inr u) \<Rightarrow>
                           Some (Inr (''VM '' @ sq @ n @ sq @ '' powered on.''),
                                 log_add (LogInfo (''Virtual machine powered on: '' @ n)) w2)))))"

definition power_off_vm :: "world \<Rightarrow> string \<Rightarrow> ((exn + string) \<times> world) option" where
  "power_off_vm w n =
     (case find_vm w n of
        (Inl e, w1) \<Rightarrow> Some (Inl e, w1)
      | (Inr None, w1) \<Rightarrow> Some (Inl (Exception (''Virtual machine '' @ n @ '' not found'')), w1)
      | (Inr (Some vm), w1) \<Rightarrow>
          (case fetch w1 vm of
             Inl e \<Rightarrow> Some (Inl e, w1)
           | Inr vmo \<Rightarrow>
               if powerState vmo = poweredOff
               then Some (Inr (''VM '' @ sq @ n @ sq @ '' is already powered off.''), w1)
               else
                 (case submit w1 (PowerOffVM_Task vm) of
                    (h, w2) \<Rightarrow>
                      (case await_task (task_reads w2 h) of
                         None \<Rightarrow> None
                       | Some (Inl e) \<Rightarrow> Some (Inl e, w2)
                       | Some (Inr u) \<Rightarrow>
                           Some (Inr (''VM '' @ sq @ n @ sq @ '' powered off.''),
                                 log_add (LogInfo (''Virtual machine powered off: '' @ n)) w2)))))"

text \<open>
  \<^verbatim>\<open>delete_vm\<close> wraps the task in \<^verbatim>\<open>try\<close> ... \<^verbatim>\<open>except Exception as e\<close>, which logs
  and re-raises with a bare \<^verbatim>\<open>raise\<close>.
\<close>

definition delete_vm :: "world \<Rightarrow> string \<Rightarrow> ((exn + string) \<times> world) option" where
  "delete_vm w n =
     (case find_vm w n of
        (Inl e, w1) \<Rightarrow> Some (Inl e, w1)
      | (Inr None, w1) \<Rightarrow> Some (Inl (Exception (''Virtual machine '' @ n @ '' not found'')), w1)
      | (Inr (Some vm), w1) \<Rightarrow>
          (case submit w1 (Destroy_Task vm) of
             (h, w2) \<Rightarrow>
               (case await_task (task_reads w2 h) of
                  None \<Rightarrow> None
                | Some (Inl e) \<Rightarrow>
                    Some (Inl e, log_add (LogError ''Failed to delete virtual machine: '' e) w2)
                | Some (Inr u) \<Rightarrow>
                    Some (Inr (''VM '' @ sq @ n @ sq @ '' deleted.''),
                          log_add (LogInfo (''Virtual machine deleted: '' @ n)) w2))))"

section \<open>The manager and its configuration (server.py)\<close>

record config =
  vcenter_host :: string
  vcenter_user :: string
  vcenter_password :: string
  cfg_datacenter :: "string option"
  cfg_cluster :: "string option"
  cfg_datastore :: "string option"
  cfg_network :: "string option"
  insecure :: bool
  log_level :: string

record manager =
  datacenter_obj :: moref
  resource_pool :: moref
  datastore_obj :: moref
  network_obj :: "moref option"

text \<open>Truth value of an \<^verbatim>\<open>Optional[str]\<close>: \<^verbatim>\<open>None\<close> and the empty string are false.\<close>

fun truthy :: "string option \<Rightarrow> bool" where
  "truthy None = False"
| "truthy (Some s) = (s \<noteq> [])"

text \<open>
  \<^verbatim>\<open>next((x for x in xs if isinstance(x, cls) and x.name == n), None)\<close>; the name is
  fetched only for the objects that pass the class test.
\<close>

fun next_named :: "world \<Rightarrow> (moref \<Rightarrow> bool) \<Rightarrow> string \<Rightarrow> moref list \<Rightarrow> exn + moref option" where
  "next_named w P n [] = Inr None"
| "next_named w P n (x # xs) =
     (if P x then
        (case fetch w x of
           Inl e \<Rightarrow> Inl e
         | Inr ob \<Rightarrow> if name ob = n then Inr (Some x) else next_named w P n xs)
      else next_named w P n xs)"

text \<open>The children of one of the datacenter's folders.\<close>

definition folder_children :: "world \<Rightarrow> moref \<Rightarrow> (mobject \<Rightarrow> moref) \<Rightarrow> exn + moref list" where
  "folder_children w dc folder_of =
     (case fetch w dc of
        Inl e \<Rightarrow> Inl e
      | Inr dco \<Rightarrow>
          (case fetch w (folder_of dco) of
             Inl e \<Rightarrow> Inl e
           | Inr fo \<Rightarrow> Inr (childEntity fo)))"

text \<open>
  \<^verbatim>\<open>max(datastores, key=lambda ds: ds.summary.freeSpace)\<close>: the first datastore whose
  free space no other exceeds.
\<close>

fun free_spaces :: "world \<Rightarrow> moref list \<Rightarrow> exn + (moref \<times> int) list" where
  "free_spaces w [] = Inr []"
| "free_spaces w (ds # dss) =
     (case fetch w ds of
        Inl e \<Rightarrow> Inl e
      | Inr dso \<Rightarrow>
          (case free_spaces w dss of
             Inl e \<Rightarrow> Inl e
           | Inr ks \<Rightarrow> Inr ((ds, freeSpace dso) # ks)))"

fun max_by_key :: "moref \<times> int \<Rightarrow> (moref \<times> int) list \<Rightarrow> moref \<times> int" where
  "max_by_key best [] = best"
| "max_by_key best (x # xs) = (if snd x > snd best then max_by_key x xs else max_by_key best xs)"

definition select_datacenter :: "config \<Rightarrow> world \<Rightarrow> exn + moref" where
  "select_datacenter cfg w =
     (case fetch w (rootFolder w) of
        Inl e \<Rightarrow> Inl e
      | Inr rootf \<Rightarrow>
          if truthy (cfg_datacenter cfg) then
            (case next_named w (\<lambda>dc. isinstance dc Datacenter) (the (cfg_datacenter cfg))
                    (childEntity rootf) of
               Inl e \<Rightarrow> Inl e
             | Inr None \<Rightarrow>
                 Inl (Exception (''Datacenter '' @ the (cfg_datacenter cfg) @ '' not found''))
             | Inr (Some dc) \<Rightarrow> Inr dc)
          else
            (case find (\<lambda>dc. isinstance dc Datacenter) (childEntity rootf) of
               None \<Rightarrow> Inl (Exception ''No datacenter object found'')
             | Some dc \<Rightarrow> Inr dc))"

definition select_compute_resource :: "config \<Rightarrow> world \<Rightarrow> moref \<Rightarrow> exn + moref" where
  "select_compute_resource cfg w dc =
     (case folder_children w dc hostFolder of
        Inl e \<Rightarrow> Inl e
      | Inr children \<Rightarrow>
          if truthy (cfg_cluster cfg) then
            (case next_named w (\<lambda>f. isinstance f ClusterComputeResource) (the (cfg_cluster cfg))
                    children of
               Inl e \<Rightarrow> Inl e
             | Inr None \<Rightarrow> Inl (Exception (''Cluster '' @ the (cfg_cluster cfg) @ '' not found''))
             | Inr (Some cr) \<Rightarrow> Inr cr)
          else
            (case find (\<lambda>cr. isinstance cr ComputeResource) children of
               None \<Rightarrow> Inl (Exception ''No compute resource (cluster or host) found'')
             | Some cr \<Rightarrow> Inr cr))"

definition select_datastore :: "config \<Rightarrow> world \<Rightarrow> moref \<Rightarrow> exn + moref" where
  "select_datastore cfg w dc =
     (case folder_children w dc datastoreFolder of
        Inl e \<Rightarrow> Inl e
      | Inr children \<Rightarrow>
          if truthy (cfg_datastore cfg) then
            (case next_named w (\<lambda>ds. isinstance ds Datastore) (the (cfg_datastore cfg))
                    children of
               Inl e \<Rightarrow> Inl e
             | Inr None \<Rightarrow>
                 Inl (Exception (''Datastore '' @ the (cfg_datastore cfg) @ '' not found''))
             | Inr (Some ds) \<Rightarrow> Inr ds)
          else
            (case free_spaces w (filter (\<lambda>ds. isinstance ds Datastore) children) of
               Inl e \<Rightarrow> Inl e
             | Inr [] \<Rightarrow> Inl (Exception ''No available datastore found in the datacenter'')
             | Inr (k # ks) \<Rightarrow> Inr (fst (max_by_key k ks))))"

text \<open>
  The network branch: a configured name is looked up among all children of the network
  folder (no class test); without one the manager keeps \<^verbatim>\<open>network_obj = None\<close>.
\<close>

definition select_network :: "config \<Rightarrow> world \<Rightarrow> moref \<Rightarrow> exn + moref option" where
  "select_network cfg w dc =
     (if truthy (cfg_network cfg) then
        (case folder_children w dc networkFolder of
           Inl e \<Rightarrow> Inl e
         | Inr networks \<Rightarrow>
             (case next_named w (\<lambda>net. True) (the (cfg_network cfg)) networks of
                Inl e \<Rightarrow> Inl e
              | Inr None \<Rightarrow>
                  Inl (Exception (''Network '' @ the (cfg_network cfg) @ '' not found''))
              | Inr (Some net) \<Rightarrow> Inr (Some net)))
      else Inr None)"

text \<open>
  \<^verbatim>\<open>_connect_vcenter\<close>: connect, then resolve the datacenter, the resource pool of the
  compute resource, the datastore and the network, logging on the way.
\<close>

definition connect_vcenter :: "config \<Rightarrow> world \<Rightarrow> (exn + manager) \<times> world" where
  "connect_vcenter cfg w =
     (case connect_fault w of
        Some e \<Rightarrow> (Inl e, log_add (LogError ''Failed to connect to vCenter/ESXi: '' e) w)
      | None \<Rightarrow>
     (let w1 = log_add (LogInfo ''Successfully connected to VMware vCenter/ESXi API'') w in
     (case select_datacenter cfg w1 of
        Inl e \<Rightarrow> (Inl e, w1)
      | Inr dc \<Rightarrow>
     (case select_compute_resource cfg w1 dc of
        Inl e \<Rightarrow> (Inl e, w1)
      | Inr cr \<Rightarrow>
     (case fetch w1 cr of
        Inl e \<Rightarrow> (Inl e, w1)
      | Inr cro \<Rightarrow>
     (case resourcePool cro of
        None \<Rightarrow> (Inl AttributeError, w1)
      | Some pool \<Rightarrow>
     (case fetch w1 pool of
        Inl e \<Rightarrow> (Inl e, w1)
      | Inr po \<Rightarrow>
     (let w2 = log_add (LogInfo (''Using resource pool: '' @ name po)) w1 in
     (case select_datastore cfg w2 dc of
        Inl e \<Rightarrow> (Inl e, w2)
      | Inr ds \<Rightarrow>
     (case fetch w2 ds of
        Inl e \<Rightarrow> (Inl e, w2)
      | Inr dso \<Rightarrow>
     (let w3 = log_add (LogInfo (''Using datastore: '' @ name dso)) w2 in
     (case select_network cfg w3 dc of
        Inl e \<Rightarrow> (Inl e, w3)
      | Inr None \<Rightarrow>
          (Inr \<lparr>datacenter_obj = dc, resource_pool = pool, datastore_obj = ds,
                network_obj = None\<rparr>, w3)
      | Inr (Some net) \<Rightarrow>
          (case fetch w3 net of
             Inl e \<Rightarrow> (Inl e, w3)
           | Inr neto \<Rightarrow>
               (Inr \<lparr>datacenter_obj = dc, resource_pool = pool, datastore_obj = ds,
                     network_obj = Some net\<rparr>,
                log_add (LogInfo (''Using network: '' @ name neto)) w3))))))))))))))"

section \<open>Creating and cloning a virtual machine (server.py)\<close>

text \<open>The first lines of \<^verbatim>\<open>create_vm\<close>: the datastore and the network to use.\<close>

definition resolve_datastore :: "manager \<Rightarrow> world \<Rightarrow> string option \<Rightarrow> exn + moref" where
  "resolve_datastore m w datastore =
     (if truthy datastore then
        (case folder_children w (datacenter_obj m) datastoreFolder of
           Inl e \<Rightarrow> Inl e
         | Inr children \<Rightarrow>
             (case next_named w (\<lambda>ds. isinstance ds Datastore) (the datastore) children of
                Inl e \<Rightarrow> Inl e
              | Inr None \<Rightarrow>
                  Inl (Exception (''Specified datastore '' @ the datastore @ '' not found''))
              | Inr (Some ds) \<Rightarrow> Inr ds))
      else Inr (datastore_obj m))"

definition resolve_network :: "manager \<Rightarrow> world \<Rightarrow> string option \<Rightarrow> exn + moref option" where
  "resolve_network m w network =
     (if truthy network then
        (case folder_children w (datacenter_obj m) networkFolder of
           Inl e \<Rightarrow> Inl e
         | Inr networks \<Rightarrow>
             (case next_named w (\<lambda>net. True) (the network) networks of
                Inl e \<Rightarrow> Inl e
              | Inr None \<Rightarrow>
                  Inl (Exception (''Specified network '' @ the network @ '' not found''))
              | Inr (Some net) \<Rightarrow> Inr (Some net)))
      else Inr (network_obj m))"

text \<open>The network adapter, added only when there is a network object.\<close>

definition nic_specs :: "world \<Rightarrow> moref option \<Rightarrow> exn + device_spec list" where
  "nic_specs w network =
     (case network of
        None \<Rightarrow> Inr []
      | Some net \<Rightarrow>
          (case fetch w net of
             Inl e \<Rightarrow> Inl e
           | Inr neto \<Rightarrow>
               Inr [AddVmxnet3 (name neto)
                      (if isinstance net Network
                       then Some (NetworkBackingInfo net (name neto))
                       else if isinstance net DistributedVirtualPortgroup
                       then Some (DistributedVirtualPortBackingInfo
                                    (portgroup_key neto) (switch_uuid neto))
                       else None)]))"

definition create_vm ::
  "manager \<Rightarrow> world \<Rightarrow> string \<Rightarrow> int \<Rightarrow> int \<Rightarrow> string option \<Rightarrow> string option
     \<Rightarrow> ((exn + string) \<times> world) option"
where
  "create_vm m w n cpus memory_mb datastore network =
     (case resolve_datastore m w datastore of
        Inl e \<Rightarrow> Some (Inl e, w)
      | Inr ds \<Rightarrow>
     (case resolve_network m w network of
        Inl e \<Rightarrow> Some (Inl e, w)
      | Inr net \<Rightarrow>
     (case nic_specs w net of
        Inl e \<Rightarrow> Some (Inl e, w)
      | Inr nics \<Rightarrow>
     (case fetch w (datacenter_obj m) of
        Inl e \<Rightarrow> Some (Inl e, w)
      | Inr dco \<Rightarrow>
     (let vm_spec = \<lparr>cs_name = n, cs_memoryMB = memory_mb, cs_numCPUs = cpus,
                     cs_guestId = ''otherGuest'',
                     cs_deviceChange =
                       [AddSCSIController (- 101), AddDisk (1024 * 1024 * 10) ds (- 101)] @ nics\<rparr>
      in case submit w (CreateVM_Task (vmFolder dco) vm_spec (resource_pool m)) of
           (h, w1) \<Rightarrow>
             (case await_task (task_reads w1 h) of
                None \<Rightarrow> None
              | Some (Inl e) \<Rightarrow>
                  Some (Inl e, log_add (LogError ''Failed to create virtual machine: '' e) w1)
              | Some (Inr u) \<Rightarrow>
                  Some (Inr (''VM '' @ sq @ n @ sq @ '' created.''),
                        log_add (LogInfo (''Virtual machine created: '' @ n)) w1)))))))"

definition clone_vm ::
  "manager \<Rightarrow> world \<Rightarrow> string \<Rightarrow> string \<Rightarrow> ((exn + string) \<times> world) option"
where
  "clone_vm m w template_name new_name =
     (case find_vm w template_name of
        (Inl e, w1) \<Rightarrow> Some (Inl e, w1)
      | (Inr None, w1) \<Rightarrow>
          Some (Inl (Exception (''Template virtual machine '' @ template_name @ '' not found'')),
                w1)
      | (Inr (Some template_vm), w1) \<Rightarrow>
     (case fetch w1 template_vm of
        Inl e \<Rightarrow> Some (Inl e, w1)
      | Inr tvo \<Rightarrow>
     (case (case parent tvo of
              Some f \<Rightarrow> if isinstance f Folder then Inr f
                        else map_sum id vmFolder (fetch w1 (datacenter_obj m))
            | None \<Rightarrow> map_sum id vmFolder (fetch w1 (datacenter_obj m))) of
        Inl e \<Rightarrow> Some (Inl e, w1)
      | Inr vm_folder \<Rightarrow>
     (let pool = (case resourcePool tvo of Some p \<Rightarrow> p | None \<Rightarrow> resource_pool m)
      in case submit w1 (Clone_Task template_vm vm_folder new_name pool (datastore_obj m)) of
           (h, w2) \<Rightarrow>
             (case await_task (task_reads w2 h) of
                None \<Rightarrow> None
              | Some (Inl e) \<Rightarrow>
                  Some (Inl e, log_add (LogError ''Failed to clone virtual machine: '' e) w2)
              | Some (Inr u) \<Rightarrow>
                  Some (Inr (''VM '' @ sq @ new_name @ sq @ '' cloned from '' @ sq @
                             template_name @ sq @ ''.''),
                        log_add (LogInfo (''Cloned virtual machine '' @ template_name @
                                          '' to new VM: '' @ new_name)) w2))))))"

section \<open>The stats query (server.py)\<close>

text \<open>
  Python's \<^verbatim>\<open>committed / (1024**3)\<close> is the true division of two integers: the
  binary64 float nearest to the exact quotient, ties to the even significand.  A float is
  modelled by the rational number it denotes.  \<open>true_divide a b\<close> scales the quotient so
  that its integer part has 53 bits, rounds it to an integer and scales back; the
  exponent comes from the bit lengths of \<open>a\<close> and \<open>b\<close>.  (Quotients outside the normal
  range of binary64 do not arise from a 64-bit byte count.)
\<close>

fun bit_length :: "nat \<Rightarrow> nat" where
  "bit_length n = (if n = 0 then 0 else Suc (bit_length (n div 2)))"

definition pow2 :: "int \<Rightarrow> rat" where
  "pow2 e = (if 0 \<le> e then 2 ^ nat e else 1 / 2 ^ nat (- e))"

definition round_half_even :: "rat \<Rightarrow> int" where
  "round_half_even x =
     (let f = \<lfloor>x\<rfloor>; d = x - of_int f
      in if d < 1 / 2 then f else if 1 / 2 < d then f + 1 else if even f then f else f + 1)"

definition true_divide :: "int \<Rightarrow> int \<Rightarrow> rat" where
  "true_divide a b =
     (let d = int (bit_length (nat \<bar>a\<bar>)) - int (bit_length (nat \<bar>b\<bar>));
          e = (if pow2 d * of_int \<bar>b\<bar> \<le> of_int \<bar>a\<bar> then d else d - 1) - 52
      in of_int (round_half_even (of_int a / (of_int b * pow2 e))) * pow2 e)"

text \<open>
  \<^verbatim>\<open>round(x, ndigits)\<close> rounds the exact value of the float \<open>x\<close> to \<open>ndigits\<close> decimals,
  ties to the even neighbour, and returns the float nearest to that decimal number (the
  float that prints as it).  \<open>py_round\<close> is the decimal number.
\<close>

definition py_round :: "rat \<Rightarrow> nat \<Rightarrow> rat" where
  "py_round x ndigits = of_int (round_half_even (x * 10 ^ ndigits)) / 10 ^ ndigits"

definition storage_usage_gb :: "int \<Rightarrow> rat" where
  "storage_usage_gb committed = py_round (true_divide committed (1024 ^ 3)) 2"

record vm_stats =
  cpu_usage :: int
  memory_usage :: int
  storage_usage :: rat
  network_transmit_KBps :: "int option"
  network_receive_KBps :: "int option"

definition counter_full_name :: "perf_counter \<Rightarrow> string" where
  "counter_full_name c = pc_group c @ ''.'' @ pc_name c @ ''.'' @ pc_rollup c"

definition net_counter_ids :: "perf_counter list \<Rightarrow> int list" where
  "net_counter_ids cs =
     map pc_key
       (filter (\<lambda>c. counter_full_name c \<in> {''net.transmitted.average'', ''net.received.average''})
          cs)"

text \<open>
  The loop over \<^verbatim>\<open>stats_res[0].value\<close>; \<^verbatim>\<open>counter_ids[1]\<close> is read only when the
  series is not the one of \<^verbatim>\<open>counter_ids[0]\<close>, and is out of range when a single counter
  was found.
\<close>

fun tally_series :: "int list \<Rightarrow> metric_series list \<Rightarrow> int \<times> int \<Rightarrow> exn + int \<times> int" where
  "tally_series counter_ids [] acc = Inr acc"
| "tally_series counter_ids (s # ss) (tx, rx) =
     (case counter_ids of
        [] \<Rightarrow> Inl IndexError
      | c0 # rest \<Rightarrow>
          if counterId s = c0 then tally_series counter_ids ss (sum_list (series_value s), rx)
          else
            (case rest of
               [] \<Rightarrow> Inl IndexError
             | c1 # rest' \<Rightarrow>
                 if counterId s = c1
                 then tally_series counter_ids ss (tx, sum_list (series_value s))
                 else tally_series counter_ids ss (tx, rx)))"

text \<open>The query for one sample of every instance of the counters found.\<close>

definition net_query :: "moref \<Rightarrow> int list \<Rightarrow> query_spec" where
  "net_query vm counter_ids =
     \<lparr>maxSample = 1, entity = vm, metricId = map (\<lambda>cid. (cid, ''*'')) counter_ids\<rparr>"

text \<open>
  The body of the \<^verbatim>\<open>try\<close> block: the pair
  \<^verbatim>\<open>(net_bytes_transmitted, net_bytes_received)\<close> on normal completion, or the exception
  that leaves the block.
\<close>

definition net_metrics :: "world \<Rightarrow> moref \<Rightarrow> exn + int \<times> int" where
  "net_metrics w vm =
     (case perfCounter w of
        Inl e \<Rightarrow> Inl e
      | Inr cs \<Rightarrow>
          (let counter_ids = net_counter_ids cs
           in if counter_ids \<noteq> [] then
                (case QueryStats w (net_query vm counter_ids) of
                   Inl e \<Rightarrow> Inl e
                 | Inr stats_res \<Rightarrow>
                     (case stats_res of
                        [] \<Rightarrow> Inl IndexError
                      | em # ems \<Rightarrow> tally_series counter_ids em (0, 0)))
              else Inr (0, 0)))"

text \<open>
  The entries written before the \<^verbatim>\<open>try\<close> block; the two network entries are filled in
  by the block or by its handler.
\<close>

definition core_stats :: "mobject \<Rightarrow> vm_stats" where
  "core_stats vmo =
     (let committed = (case storage_committed vmo of None \<Rightarrow> 0 | Some c \<Rightarrow> c)
      in \<lparr>cpu_usage = overallCpuUsage vmo,
          memory_usage = guestMemoryUsage vmo,
          storage_usage = storage_usage_gb committed,
          network_transmit_KBps = None,
          network_receive_KBps = None\<rparr>)"

definition get_vm_performance :: "world \<Rightarrow> string \<Rightarrow> (exn + vm_stats) \<times> world" where
  "get_vm_performance w vm_name =
     (case find_vm w vm_name of
        (Inl e, w1) \<Rightarrow> (Inl e, w1)
      | (Inr None, w1) \<Rightarrow> (Inl (Exception (''VM '' @ vm_name @ '' not found'')), w1)
      | (Inr (Some vm), w1) \<Rightarrow>
          (case fetch w1 vm of
             Inl e \<Rightarrow> (Inl e, w1)
           | Inr vmo \<Rightarrow>
               (case net_metrics w1 vm of
                  Inr (tx, rx) \<Rightarrow>
                    (Inr ((core_stats vmo)\<lparr>network_transmit_KBps := Some tx,
                                            network_receive_KBps := Some rx\<rparr>), w1)
                | Inl e \<Rightarrow>
                    (Inr (core_stats vmo),
                     log_add (LogWarning ''Failed to retrieve network performance data: '' e)
                       w1))))"

section \<open>Auxiliary predicates and example inventories\<close>

text \<open>
  \<open>exhausted_chain w cur rs\<close>: following \<^verbatim>\<open>parent\<close> from \<open>cur\<close> visits exactly the
  objects \<open>rs\<close>, all of them present and none a datacenter, and then reaches an object
  without parent.
\<close>

fun exhausted_chain :: "world \<Rightarrow> moref option \<Rightarrow> moref list \<Rightarrow> bool" where
  "exhausted_chain w None [] = True"
| "exhausted_chain w (Some r) (r' # rs) =
     (r = r' \<and> \<not> isinstance r Datacenter \<and>
      (case objs w r of None \<Rightarrow> False | Some ob \<Rightarrow> exhausted_chain w (parent ob) rs))"
| "exhausted_chain w cur rs = False"

text \<open>
  \<open>reaches_datacenter w cur rs dc\<close>: following \<^verbatim>\<open>parent\<close> from \<open>cur\<close> visits the
  objects \<open>rs\<close>, all of them present and none a datacenter, and then the datacenter \<open>dc\<close>.
\<close>

fun reaches_datacenter :: "world \<Rightarrow> moref option \<Rightarrow> moref list \<Rightarrow> moref \<Rightarrow> bool" where
  "reaches_datacenter w None rs dc = False"
| "reaches_datacenter w (Some r) [] dc = (r = dc \<and> isinstance dc Datacenter)"
| "reaches_datacenter w (Some r) (r' # rs) dc =
     (r = r' \<and> \<not> isinstance r Datacenter \<and>
      (case objs w r of None \<Rightarrow> False | Some ob \<Rightarrow> reaches_datacenter w (parent ob) rs dc))"

definition mo :: mobject where
  "mo = \<lparr>name = [], parent = None, childEntity = [], hostFolder = MoRef Folder 0,
         datastoreFolder = MoRef Folder 0, networkFolder = MoRef Folder 0,
         vmFolder = MoRef Folder 0, resourcePool = None, freeSpace = 0, runtime_host = None,
         powerState = poweredOff, config = None, overallCpuUsage = 0, guestMemoryUsage = 0,
         storage_committed = None, portgroup_key = [], switch_uuid = []\<rparr>"

definition blank_world :: world where
  "blank_world = \<lparr>objs = Map.empty, rootFolder = MoRef Folder 0, vm_view = [], open_views = 0,
     submitted = [], task_reads = (\<lambda>h k. \<lparr>state = success, error_fault = None\<rparr>),
     perfCounter = Inr [], QueryStats = (\<lambda>q. Inr []), connect_fault = None, logged = []\<rparr>"

text \<open>A virtual machine below two folders that name each other as parent.\<close>

definition cyclic_world :: world where
  "cyclic_world = blank_world\<lparr>
     objs := [MoRef VirtualMachine 1 \<mapsto> mo\<lparr>name := ''vm1'', parent := Some (MoRef Folder 2)\<rparr>,
              MoRef Folder 2 \<mapsto> mo\<lparr>name := ''a'', parent := Some (MoRef Folder 3)\<rparr>,
              MoRef Folder 3 \<mapsto> mo\<lparr>name := ''b'', parent := Some (MoRef Folder 2)\<rparr>],
     vm_view := [MoRef VirtualMachine 1]\<rparr>"

text \<open>The same machine below two folders, the upper one without parent.\<close>

definition unrooted_world :: world where
  "unrooted_world = blank_world\<lparr>
     objs := [MoRef VirtualMachine 1 \<mapsto> mo\<lparr>name := ''vm1'', parent := Some (MoRef Folder 2)\<rparr>,
              MoRef Folder 2 \<mapsto> mo\<lparr>name := ''a'', parent := Some (MoRef Folder 3)\<rparr>,
              MoRef Folder 3 \<mapsto> mo\<lparr>name := ''b''\<rparr>],
     vm_view := [MoRef VirtualMachine 1]\<rparr>"

text \<open>
  A small inventory: one datacenter with a cluster, two datastores, one network and two
  virtual machines, \<open>web01\<close> running and \<open>db01\<close> powered off.
\<close>

definition lab_objs :: "moref \<rightharpoonup> mobject" where
  "lab_objs =
     [MoRef Folder 0 \<mapsto> mo\<lparr>name := ''Datacenters'', childEntity := [MoRef Datacenter 1]\<rparr>,
      MoRef Datacenter 1 \<mapsto>
        mo\<lparr>name := ''DC1'', parent := Some (MoRef Folder 0), hostFolder := MoRef Folder 2,
           datastoreFolder := MoRef Folder 3, networkFolder := MoRef Folder 4,
           vmFolder := MoRef Folder 5\<rparr>,
      MoRef Folder 2 \<mapsto>
        mo\<lparr>name := ''host'', parent := Some (MoRef Datacenter 1),
           childEntity := [MoRef ClusterComputeResource 6]\<rparr>,
      MoRef Folder 3 \<mapsto>
        mo\<lparr>name := ''datastore'', parent := Some (MoRef Datacenter 1),
           childEntity := [MoRef Datastore 7, MoRef Datastore 8]\<rparr>,
      MoRef Folder 4 \<mapsto>
        mo\<lparr>name := ''network'', parent := Some (MoRef Datacenter 1),
           childEntity := [MoRef Network 9]\<rparr>,
      MoRef Folder 5 \<mapsto>
        mo\<lparr>name := ''vm'', parent := Some (MoRef Datacenter 1),
           childEntity := [MoRef VirtualMachine 12, MoRef VirtualMachine 13]\<rparr>,
      MoRef ClusterComputeResource 6 \<mapsto>
        mo\<lparr>name := ''Cluster1'', parent := Some (MoRef Folder 2),
           resourcePool := Some (MoRef ResourcePool 10)\<rparr>,
      MoRef Datastore 7 \<mapsto>
        mo\<lparr>name := ''ds1'', parent := Some (MoRef Folder 3), freeSpace := 100\<rparr>,
      MoRef Datastore 8 \<mapsto>
        mo\<lparr>name := ''ds2'', parent := Some (MoRef Folder 3), freeSpace := 500\<rparr>,
      MoRef Network 9 \<mapsto> mo\<lparr>name := ''VM Network'', parent := Some (MoRef Folder 4)\<rparr>,
      MoRef ResourcePool 10 \<mapsto>
        mo\<lparr>name := ''Resources'', parent := Some (MoRef ClusterComputeResource 6)\<rparr>,
      MoRef HostSystem 11 \<mapsto>
        mo\<lparr>name := ''esx1'', parent := Some (MoRef ClusterComputeResource 6)\<rparr>,
      MoRef VirtualMachine 12 \<mapsto>
        mo\<lparr>name := ''web01'', parent := Some (MoRef Folder 5),
           runtime_host := Some (MoRef HostSystem 11), powerState := poweredOn,
           config := Some \<lparr>hardware = Some [OtherDevice,
                                               VirtualEthernetCard ''00-50-56-0a-0b-0c'']\<rparr>,
           overallCpuUsage := 100, guestMemoryUsage := 512,
           storage_committed := Some 11274289152\<rparr>,
      MoRef VirtualMachine 13 \<mapsto>
        mo\<lparr>name := ''db01'', parent := Some (MoRef Folder 5),
           runtime_host := Some (MoRef HostSystem 11), powerState := poweredOff,
           config := Some \<lparr>hardware = Some [VirtualEthernetCard ''00:50:56:AA:BB:CC'']\<rparr>\<rparr>]"

definition lab_world :: world where
  "lab_world = blank_world\<lparr>objs := lab_objs,
     vm_view := [MoRef VirtualMachine 12, MoRef VirtualMachine 13]\<rparr>"

definition lab_manager :: manager where
  "lab_manager = \<lparr>datacenter_obj = MoRef Datacenter 1, resource_pool = MoRef ResourcePool 10,
                   datastore_obj = MoRef Datastore 8, network_obj = None\<rparr>"

text \<open>
  Variants of \<open>lab_world\<close> for the performance manager: the counter listing fails;
  the query fails; the query answers with a series of another counter; the query answers
  with one sample for each network counter.
\<close>

definition perf_down_world :: world where
  "perf_down_world = lab_world\<lparr>perfCounter := Inl (MethodFault ''perf service unavailable'')\<rparr>"

definition net_counters :: "perf_counter list" where
  "net_counters =
     [\<lparr>pc_key = 143, pc_group = ''net'', pc_name = ''transmitted'', pc_rollup = ''average''\<rparr>,
      \<lparr>pc_key = 2, pc_group = ''cpu'', pc_name = ''usage'', pc_rollup = ''average''\<rparr>,
      \<lparr>pc_key = 144, pc_group = ''net'', pc_name = ''received'', pc_rollup = ''average''\<rparr>]"

definition query_down_world :: world where
  "query_down_world = lab_world\<lparr>perfCounter := Inr net_counters,
     QueryStats := (\<lambda>q. Inl (MethodFault ''query failed''))\<rparr>"

definition no_series_world :: world where
  "no_series_world = lab_world\<lparr>perfCounter := Inr net_counters,
     QueryStats := (\<lambda>q. Inr [[\<lparr>counterId = 2, series_value = [7]\<rparr>]])\<rparr>"

definition busy_world :: world where
  "busy_world = lab_world\<lparr>perfCounter := Inr net_counters,
     QueryStats := (\<lambda>q. Inr [[\<lparr>counterId = 144, series_value = [500]\<rparr>,
                               \<lparr>counterId = 143, series_value = [1000]\<rparr>]])\<rparr>"

text \<open>
  \<open>settles_at reads k\<close>: the reads of a task's info show no terminal state before
  read \<open>k\<close>, read \<open>k\<close> shows one, and every later read returns what read \<open>k\<close> did
  (a terminal state is final on the server).
\<close>

definition settles_at :: "(nat \<Rightarrow> task_info) \<Rightarrow> nat \<Rightarrow> bool" where
  "settles_at reads k =
     ((\<forall>i<k. \<not> terminal (state (reads i))) \<and> terminal (state (reads k)) \<and>
      (\<forall>j>k. reads j = reads k))"

text \<open>
  \<open>lab_world\<close> with tasks that run for three reads and then fail, and with tasks that
  are queued, run, and succeed at the sixth read.  In \<open>stale_world\<close> the view still lists
  a machine that the inventory no longer holds.
\<close>

definition failing_task_world :: world where
  "failing_task_world = lab_world\<lparr>task_reads := (\<lambda>h k.
     if k < 3 then \<lparr>state = running, error_fault = None\<rparr>
     else \<lparr>state = error, error_fault = Some (MethodFault ''The operation is not allowed'')\<rparr>)\<rparr>"

definition slow_task_world :: world where
  "slow_task_world = lab_world\<lparr>task_reads := (\<lambda>h k.
     if k < 1 then \<lparr>state = queued, error_fault = None\<rparr>
     else if k < 5 then \<lparr>state = running, error_fault = None\<rparr>
     else \<lparr>state = success, error_fault = None\<rparr>)\<rparr>"

definition stale_world :: world where
  "stale_world = lab_world\<lparr>vm_view :=
     [MoRef VirtualMachine 12, MoRef VirtualMachine 99, MoRef VirtualMachine 13]\<rparr>"

text \<open>
  A configuration that names no datacenter, cluster, datastore or network.
\<close>

definition lab_config :: config where
  "lab_config = \<lparr>vcenter_host = ''vcenter.lab'', vcenter_user = ''admin'',
     vcenter_password = ''secret'', cfg_datacenter = None, cfg_cluster = None,
     cfg_datastore = None, cfg_network = None, insecure = False, log_level = ''INFO''\<rparr>"

section \<open>Verified properties\<close>

subsection \<open>Ancestor resolution\<close>

lemma find_datacenter_exhausted:
  "exhausted_chain w cur rs \<Longrightarrow> find_datacenter w cur = Some (Inr ''Unknown'')"
proof (induction w cur rs rule: exhausted_chain.induct)
  case (1 w)
  show ?case by (subst find_datacenter.simps) simp
next
  case (2 w r r' rs)
  then show ?case
    by (subst find_datacenter.simps) (auto simp: fetch_def split: option.splits)
qed simp_all

lemma find_datacenter_terminates:
  assumes "\<forall>r ob p. objs w r = Some ob \<and> parent ob = Some p \<longrightarrow> rank p < (rank r :: nat)"
  shows "\<exists>res. find_datacenter w cur = Some res"
proof (cases cur)
  case None
  then show ?thesis by (subst find_datacenter.simps) simp
next
  case (Some r0)
  have "\<exists>res. find_datacenter w (Some r) = Some res" for r
  proof (induction "rank r" arbitrary: r rule: less_induct)
    case less
    show ?case
    proof (cases "objs w r")
      case None
      then show ?thesis by (subst find_datacenter.simps) (simp add: fetch_def)
    next
      case (Some ob)
      show ?thesis
      proof (cases "parent ob")
        case None
        with Some show ?thesis
          by (subst find_datacenter.simps, subst find_datacenter.simps) (simp add: fetch_def)
      next
        case (Some p)
        with \<open>objs w r = Some ob\<close> assms have "rank p < rank r" by blast
        from less[OF this] obtain res where "find_datacenter w (Some p) = Some res" by blast
        with Some \<open>objs w r = Some ob\<close> show ?thesis
          by (subst find_datacenter.simps) (simp add: fetch_def)
      qed
    qed
  qed
  with Some show ?thesis by simp
qed

lemma find_datacenter_reaches:
  "reaches_datacenter w cur rs dc \<Longrightarrow> objs w dc = Some dco \<Longrightarrow>
   find_datacenter w cur = Some (Inr (name dco))"
proof (induction w cur rs dc rule: reaches_datacenter.induct)
  case (1 w rs dc)
  then show ?case by simp
next
  case (2 w r dc)
  then show ?case by (subst find_datacenter.simps) (simp add: fetch_def)
next
  case (3 w r r' rs dc)
  then show ?case
    by (subst find_datacenter.simps) (auto simp: fetch_def split: option.splits)
qed

text \<open>
  Fixpoint induction: the walk has no result when it starts inside a set of objects that
  are all present, none of them a datacenter, each with a parent in the set.
\<close>

lemma find_datacenter_diverges:
  assumes closed: "\<forall>r\<in>S. \<not> isinstance r Datacenter \<and>
                     (\<exists>ob p. objs w r = Some ob \<and> parent ob = Some p \<and> p \<in> S)"
    and start: "r \<in> S"
  shows "find_datacenter w (Some r) = None"
proof -
  have no: "w' = w \<longrightarrow> (\<forall>r. cur = Some r \<longrightarrow> r \<notin> S)"
    if "find_datacenter w' cur = Some y" for w' cur y
  proof (rule find_datacenter.raw_induct[where
           P = "\<lambda>w' cur y. w' = w \<longrightarrow> (\<forall>r. cur = Some r \<longrightarrow> r \<notin> S)", OF _ that])
    fix f :: "world \<Rightarrow> moref option \<Rightarrow> (exn + string) option" and w' cur y
    assume IH: "\<And>w' cur y. f w' cur = Some y \<Longrightarrow> w' = w \<longrightarrow> (\<forall>r. cur = Some r \<longrightarrow> r \<notin> S)"
      and step: "(case cur of
          None \<Rightarrow> Some (Inr ''Unknown'')
        | Some r \<Rightarrow>
            (case fetch w' r of
               Inl e \<Rightarrow> Some (Inl e)
             | Inr ob \<Rightarrow>
                 if isinstance r Datacenter then Some (Inr (name ob))
                 else f w' (parent ob))) = Some y"
    show "w' = w \<longrightarrow> (\<forall>r. cur = Some r \<longrightarrow> r \<notin> S)"
    proof (intro impI allI notI)
      fix r assume w: "w' = w" and c: "cur = Some r" and r: "r \<in> S"
      from closed r obtain ob p where ob: "objs w r = Some ob" "parent ob = Some p" "p \<in> S"
        and nd: "\<not> isinstance r Datacenter" by blast
      from step w c ob nd have "f w (Some p) = Some y" by (simp add: fetch_def)
      with IH ob(3) show False by blast
    qed
  qed
  show ?thesis
  proof (cases "find_datacenter w (Some r)")
    case None
    then show ?thesis .
  next
    case (Some y)
    from no[OF this] start show ?thesis by blast
  qed
qed

text \<open>
  C1, as the code has it.  \<^verbatim>\<open>_get_parent_info\<close> has no hop limit; for a virtual machine
  that the inventory holds:
  \<^item> when the parent links of the inventory are acyclic (some rank decreases along every
    link) it returns;
  \<^item> when the chain above the machine leads to a datacenter, the walk stops there and
    reports the datacenter's name;
  \<^item> when the chain is exhausted without meeting a datacenter the datacenter name is
    \<open>Unknown\<close>, and with no host assignment the cluster name is \<open>Unknown\<close>;
  \<^item> when the chain stays inside objects that all have a parent and are no datacenters
    (a cyclic chain), the walk has no result, and neither has \<^verbatim>\<open>_get_parent_info\<close>
    once the host lookup has passed.
\<close>

theorem get_parent_info_walk:
  assumes "objs w vm = Some vmo"
  shows
    "((\<forall>r ob p. objs w r = Some ob \<and> parent ob = Some p \<longrightarrow> rank p < (rank r :: nat)) \<longrightarrow>
        (\<exists>res. get_parent_info w vm = Some res)) \<and>
     (\<forall>rs dc dco cl. reaches_datacenter w (parent vmo) rs dc \<and> objs w dc = Some dco \<and>
          cluster_or_host w (runtime_host vmo) = Inr cl \<longrightarrow>
        get_parent_info w vm = Some (Inr \<lparr>datacenter = name dco, cluster = cl\<rparr>)) \<and>
     (\<forall>rs. exhausted_chain w (parent vmo) rs \<and> runtime_host vmo = None \<longrightarrow>
        get_parent_info w vm =
          Some (Inr \<lparr>datacenter = ''Unknown'', cluster = ''Unknown''\<rparr>)) \<and>
     (\<forall>rs info. exhausted_chain w (parent vmo) rs \<and>
          get_parent_info w vm = Some (Inr info) \<longrightarrow>
        datacenter info = ''Unknown'') \<and>
     (\<forall>info. runtime_host vmo = None \<and> get_parent_info w vm = Some (Inr info) \<longrightarrow>
        cluster info = ''Unknown'') \<and>
     (\<forall>S r. parent vmo = Some r \<and> r \<in> S \<and>
          (\<forall>r\<in>S. \<not> isinstance r Datacenter \<and>
                   (\<exists>ob p. objs w r = Some ob \<and> parent ob = Some p \<and> p \<in> S)) \<longrightarrow>
        find_datacenter w (parent vmo) = None \<and>
        (\<forall>cl. cluster_or_host w (runtime_host vmo) = Inr cl \<longrightarrow>
           get_parent_info w vm = None))"
proof (intro conjI allI impI)
  assume "\<forall>r ob p. objs w r = Some ob \<and> parent ob = Some p \<longrightarrow> rank p < rank r"
  from find_datacenter_terminates[OF this]
  obtain res where "find_datacenter w (parent vmo) = Some res" by blast
  with assms show "\<exists>res. get_parent_info w vm = Some res"
    by (auto simp: get_parent_info_def fetch_def split: sum.splits)
next
  fix rs dc dco cl
  assume h: "reaches_datacenter w (parent vmo) rs dc \<and> objs w dc = Some dco \<and>
          cluster_or_host w (runtime_host vmo) = Inr cl"
  then have "find_datacenter w (parent vmo) = Some (Inr (name dco))"
    using find_datacenter_reaches[of w "parent vmo" rs dc dco] by blast
  with h assms show "get_parent_info w vm = Some (Inr \<lparr>datacenter = name dco, cluster = cl\<rparr>)"
    by (simp add: get_parent_info_def fetch_def)
next
  fix rs assume "exhausted_chain w (parent vmo) rs \<and> runtime_host vmo = None"
  then have "find_datacenter w (parent vmo) = Some (Inr ''Unknown'')"
    and "runtime_host vmo = None"
    using find_datacenter_exhausted[of w "parent vmo" rs] by blast+
  with assms
  show "get_parent_info w vm = Some (Inr \<lparr>datacenter = ''Unknown'', cluster = ''Unknown''\<rparr>)"
    by (simp add: get_parent_info_def fetch_def cluster_or_host_def)
next
  fix rs info
  assume "exhausted_chain w (parent vmo) rs \<and> get_parent_info w vm = Some (Inr info)"
  then have "find_datacenter w (parent vmo) = Some (Inr ''Unknown'')"
    and "get_parent_info w vm = Some (Inr info)"
    using find_datacenter_exhausted[of w "parent vmo" rs] by blast+
  with assms show "datacenter info = ''Unknown''"
    by (auto simp: get_parent_info_def fetch_def split: sum.splits)
next
  fix info
  assume "runtime_host vmo = None \<and> get_parent_info w vm = Some (Inr info)"
  with assms show "cluster info = ''Unknown''"
    by (auto simp: get_parent_info_def fetch_def cluster_or_host_def
             split: sum.splits option.splits)
next
  fix S r
  assume h: "parent vmo = Some r \<and> r \<in> S \<and>
          (\<forall>r\<in>S. \<not> isinstance r Datacenter \<and>
                   (\<exists>ob p. objs w r = Some ob \<and> parent ob = Some p \<and> p \<in> S))"
  then have "find_datacenter w (Some r) = None"
    by (intro find_datacenter_diverges[of S]) blast+
  with h show "find_datacenter w (parent vmo) = None" by simp
next
  fix S r cl
  assume h: "parent vmo = Some r \<and> r \<in> S \<and>
          (\<forall>r\<in>S. \<not> isinstance r Datacenter \<and>
                   (\<exists>ob p. objs w r = Some ob \<and> parent ob = Some p \<and> p \<in> S))"
    and c: "cluster_or_host w (runtime_host vmo) = Inr cl"
  from h have "find_datacenter w (Some r) = None"
    by (intro find_datacenter_diverges[of S]) blast+
  with h c assms show "get_parent_info w vm = None"
    by (simp add: get_parent_info_def fetch_def)
qed

text \<open>
  The theorem at \<open>unrooted_world\<close>, ranked by distance from the top folder (no host, two
  folders, no datacenter), at the machine \<open>web01\<close> of \<open>lab_world\<close> (below \<open>DC1\<close>, on a
  host of \<open>Cluster1\<close>) and at \<open>cyclic_world\<close>.
\<close>

theorem get_parent_info_walk_witness:
  "(\<exists>res. get_parent_info unrooted_world (MoRef VirtualMachine 1) = Some res) \<and>
   get_parent_info unrooted_world (MoRef VirtualMachine 1) =
     Some (Inr \<lparr>datacenter = ''Unknown'', cluster = ''Unknown''\<rparr>) \<and>
   get_parent_info lab_world (MoRef VirtualMachine 12) =
     Some (Inr \<lparr>datacenter = ''DC1'', cluster = ''Cluster1''\<rparr>) \<and>
   get_parent_info cyclic_world (MoRef VirtualMachine 1) = None"
proof (intro conjI)
  let ?vm = "MoRef VirtualMachine 1"
  let ?vmo = "mo\<lparr>name := ''vm1'', parent := Some (MoRef Folder 2)\<rparr>"
  let ?S = "{MoRef Folder 2, MoRef Folder 3}"
  have rank: "\<forall>r ob p. objs unrooted_world r = Some ob \<and> parent ob = Some p \<longrightarrow>
                3 - mo_id p < 3 - mo_id r"
    by (auto simp: unrooted_world_def blank_world_def mo_def split: if_splits)
  have vm: "objs unrooted_world ?vm = Some ?vmo"
    by (simp add: unrooted_world_def blank_world_def)
  have ex: "exhausted_chain unrooted_world (parent ?vmo) [MoRef Folder 2, MoRef Folder 3] \<and>
            runtime_host ?vmo = None"
    by (simp add: unrooted_world_def blank_world_def mo_def)
  note u = get_parent_info_walk[OF vm, where rank = "\<lambda>r. 3 - mo_id r"]
  from u[THEN conjunct1, THEN mp, OF rank]
  show "\<exists>res. get_parent_info unrooted_world ?vm = Some res" .
  from u[THEN conjunct2, THEN conjunct2, THEN conjunct1, THEN spec, THEN mp, OF ex]
  show "get_parent_info unrooted_world ?vm =
          Some (Inr \<lparr>datacenter = ''Unknown'', cluster = ''Unknown''\<rparr>)" .
  have cvm: "objs cyclic_world ?vm = Some ?vmo"
    by (simp add: cyclic_world_def blank_world_def)
  have cyc: "parent ?vmo = Some (MoRef Folder 2) \<and> MoRef Folder 2 \<in> ?S \<and>
       (\<forall>r\<in>?S. \<not> isinstance r Datacenter \<and>
          (\<exists>ob p. objs cyclic_world r = Some ob \<and> parent ob = Some p \<and> p \<in> ?S))"
    by (simp add: cyclic_world_def blank_world_def mo_def)
  have host: "cluster_or_host cyclic_world (runtime_host ?vmo) = Inr ''Unknown''"
    by (simp add: cluster_or_host_def mo_def)
  note c = get_parent_info_walk[OF cvm, THEN conjunct2, THEN conjunct2, THEN conjunct2,
             THEN conjunct2, THEN conjunct2, THEN spec, THEN spec, THEN mp, OF cyc]
  from c[THEN conjunct2, THEN spec, THEN mp, OF host]
  show "get_parent_info cyclic_world ?vm = None" .
next
  let ?vm = "MoRef VirtualMachine 12"
  let ?vmo = "the (lab_objs ?vm)"
  let ?dco = "the (lab_objs (MoRef Datacenter 1))"
  have vm: "objs lab_world ?vm = Some ?vmo"
    by (simp add: lab_world_def lab_objs_def)
  have r: "reaches_datacenter lab_world (parent ?vmo) [MoRef Folder 5] (MoRef Datacenter 1) \<and>
           objs lab_world (MoRef Datacenter 1) = Some ?dco \<and>
           cluster_or_host lab_world (runtime_host ?vmo) = Inr ''Cluster1''"
    by (simp add: lab_world_def lab_objs_def cluster_or_host_def fetch_def)
  have n: "name ?dco = ''DC1''" by (simp add: lab_objs_def)
  from get_parent_info_walk[OF vm, THEN conjunct2, THEN conjunct1, THEN spec, THEN spec,
         THEN spec, THEN spec, THEN mp, OF r]
  show "get_parent_info lab_world ?vm =
          Some (Inr \<lparr>datacenter = ''DC1'', cluster = ''Cluster1''\<rparr>)"
    by (simp only: n)
qed

text \<open>
  Against C1 as stated: in \<open>cyclic_world\<close> the parent chain of the machine is a cycle of
  two folders, and \<^verbatim>\<open>_get_parent_info\<close> does not return.
\<close>

theorem get_parent_info_cyclic_diverges:
  "get_parent_info cyclic_world (MoRef VirtualMachine 1) = None"
proof -
  have "find_datacenter cyclic_world (Some (MoRef Folder 2)) = None"
    by (rule find_datacenter_diverges[of "{MoRef Folder 2, MoRef Folder 3}"])
       (simp_all add: cyclic_world_def blank_world_def mo_def)
  then show ?thesis
    by (simp add: get_parent_info_def fetch_def cluster_or_host_def cyclic_world_def
                  blank_world_def mo_def)
qed

subsection \<open>Views and lookups\<close>

lemma Destroy_CreateContainerView: "Destroy (CreateContainerView w) = w"
  by (simp add: Destroy_def CreateContainerView_def)

lemma fetch_CreateContainerView: "fetch (CreateContainerView w) r = fetch w r"
  by (simp add: fetch_def CreateContainerView_def)

lemma first_named_CreateContainerView:
  "first_named (CreateContainerView w) n vms = first_named w n vms"
  by (induction vms) (simp_all add: fetch_CreateContainerView split: sum.splits)

lemma vm_view_CreateContainerView: "vm_view (CreateContainerView w) = vm_view w"
  by (simp add: CreateContainerView_def)

lemma find_vm_value:
  "first_named w n (vm_view w) = Inr r \<Longrightarrow> find_vm w n = (Inr r, w)"
  by (simp add: find_vm_def Let_def first_named_CreateContainerView
                vm_view_CreateContainerView Destroy_CreateContainerView)

lemma find_vm_raises:
  "first_named w n (vm_view w) = Inl e \<Longrightarrow> find_vm w n = (Inl e, CreateContainerView w)"
  by (simp add: find_vm_def Let_def first_named_CreateContainerView
                vm_view_CreateContainerView)

lemma find_vm_lab_web01:
  "find_vm lab_world ''web01'' = (Inr (Some (MoRef VirtualMachine 12)), lab_world)"
  by (rule find_vm_value) (simp add: lab_world_def blank_world_def lab_objs_def fetch_def)

lemma find_vm_lab_db01:
  "find_vm lab_world ''db01'' = (Inr (Some (MoRef VirtualMachine 13)), lab_world)"
  by (rule find_vm_value) (simp add: lab_world_def blank_world_def lab_objs_def fetch_def)

text \<open>
  Rounding to two decimals: the result is a whole number of hundredths within half a
  hundredth of the argument.
\<close>

lemma round_half_even_near: "\<bar>of_int (round_half_even x) - x\<bar> \<le> 1 / 2"
proof -
  have "of_int \<lfloor>x\<rfloor> \<le> x" "x < of_int \<lfloor>x\<rfloor> + 1" by linarith+
  then show ?thesis
    by (auto simp: round_half_even_def Let_def)
qed

lemma py_round_two_decimals:
  "\<exists>k::int. py_round x 2 = of_int k / 100 \<and> \<bar>py_round x 2 - x\<bar> \<le> 1 / 200"
proof -
  let ?k = "round_half_even (x * 100)"
  have "\<bar>of_int ?k - x * 100\<bar> \<le> 1 / 2" by (rule round_half_even_near)
  then have "\<bar>of_int ?k / 100 - x\<bar> \<le> 1 / 200" by (simp add: abs_le_iff field_simps)
  then show ?thesis by (auto simp: py_round_def intro!: exI[of _ ?k])
qed

lemma floor_divide_rat_numeral:
  "\<lfloor>numeral a / numeral b :: rat\<rfloor> = numeral a div numeral b"
  by (metis floor_divide_of_int_eq of_int_numeral)

lemma round_half_even_of_int: "round_half_even (of_int z) = z"
  by (simp add: round_half_even_def)

lemma bit_length_le: "n < 2 ^ k \<Longrightarrow> bit_length n \<le> k"
proof (induction n arbitrary: k rule: bit_length.induct)
  case (1 n)
  show ?case
  proof (cases "n = 0")
    case True
    then show ?thesis by simp
  next
    case False
    with "1.prems" obtain j where k: "k = Suc j" by (cases k) auto
    with "1.prems" have "n div 2 < 2 ^ j" by simp
    with "1.IH"[OF False] k False show ?thesis by (subst bit_length.simps) simp
  qed
qed

text \<open>
  Below \<open>2 ^ 53\<close> bytes the division by \<open>2 ^ 30\<close> is exact: the quotient is a float.
\<close>

lemma true_divide_exact:
  assumes "0 \<le> c" and "c < 2 ^ 53"
  shows "true_divide c (2 ^ 30) = of_int c / 2 ^ 30"
proof -
  let ?b = "2 ^ 30 :: int"
  have bl: "int (bit_length (nat \<bar>?b\<bar>)) = 31" by simp
  define d where "d = int (bit_length (nat \<bar>c\<bar>)) - int (bit_length (nat \<bar>?b\<bar>))"
  define e where "e = (if pow2 d * of_int \<bar>?b\<bar> \<le> of_int \<bar>c\<bar> then d else d - 1) - 52"
  have td: "true_divide c ?b = of_int (round_half_even (of_int c / (of_int ?b * pow2 e))) * pow2 e"
    by (simp only: true_divide_def Let_def d_def e_def)
  from assms have "nat \<bar>c\<bar> < 2 ^ 53" by (simp add: nat_less_iff)
  then have "bit_length (nat \<bar>c\<bar>) \<le> 53" by (rule bit_length_le)
  then have "d \<le> 22" unfolding d_def bl by simp
  then have "e \<le> - 30" by (simp add: e_def)
  then obtain k where k: "e = - int (30 + k)"
    by (intro that[of "nat (- e) - 30"]) simp
  have p: "pow2 e = 1 / 2 ^ (30 + k)" by (simp add: pow2_def k)
  have "of_int c / (of_int ?b * pow2 e) = (of_int (c * 2 ^ k) :: rat)"
    by (simp add: p power_add)
  then show ?thesis
    unfolding td by (simp only: round_half_even_of_int) (simp add: p power_add)
qed

lemma storage_usage_gb_exact:
  assumes "0 \<le> c" and "c < 2 ^ 53"
  shows "storage_usage_gb c = py_round (of_int c / 2 ^ 30) 2"
proof -
  have "(1024::int) ^ 3 = 2 ^ 30" by simp
  then show ?thesis
    by (simp only: storage_usage_gb_def true_divide_exact[OF assms])
qed

lemma storage_example: "storage_usage_gb 11274289152 = 21 / 2"
  by (subst storage_usage_gb_exact) (simp_all add: py_round_def round_half_even_def Let_def)

text \<open>
  From \<open>2 ^ 53\<close> bytes on the division rounds.  At \<open>2 ^ 53 + 2 ^ 27 + 1\<close> bytes the exact
  quotient \<open>2 ^ 23 + 1 / 8 + 1 / 2 ^ 30\<close> lies halfway between two floats and becomes
  \<open>8388608.125\<close>, which \<^verbatim>\<open>round\<close> turns into \<open>8388608.12\<close>; rounding the exact quotient
  would give \<open>8388608.13\<close>.
\<close>

lemma true_divide_rounds_example:
  "true_divide 9007199388958721 1073741824 = 67108865 / 8"
proof -
  have "bit_length 9007199388958721 = 54" and "bit_length 1073741824 = 31" by simp_all
  then show ?thesis
    by (simp add: true_divide_def Let_def pow2_def round_half_even_def
                  floor_divide_rat_numeral)
qed

lemma storage_usage_gb_rounds_example:
  "storage_usage_gb 9007199388958721 = 838860812 / 100 \<and>
   py_round (9007199388958721 / 2 ^ 30) 2 = 838860813 / 100"
proof
  have "(1024::int) ^ 3 = 1073741824" by simp
  then show "storage_usage_gb 9007199388958721 = 838860812 / 100"
    by (simp only: storage_usage_gb_def true_divide_rounds_example)
       (simp add: py_round_def round_half_even_def Let_def floor_divide_rat_numeral)
  show "py_round (9007199388958721 / 2 ^ 30) 2 = 838860813 / 100"
    by (simp add: py_round_def round_half_even_def Let_def floor_divide_rat_numeral)
qed

lemma net_counter_ids_example: "net_counter_ids net_counters = [143, 144]"
  by (simp add: net_counter_ids_def net_counters_def counter_full_name_def)

text \<open>
  C9.  When the stats query finds the machine and its committed byte count \<open>c\<close> is below
  \<open>2 ^ 53\<close> (where the float division is exact), the storage figure it reports is \<open>c\<close>
  divided by \<open>2 ^ 30\<close> and rounded to two decimals: a whole number of hundredths at most
  \<open>1 / 200\<close> away from the quotient.  For 11,274,289,152 bytes it is \<open>10.5\<close>.
\<close>

theorem stats_storage_usage_gb:
  assumes "find_vm w n = (Inr (Some vm), w1)" and "objs w1 vm = Some vmo"
    and "storage_committed vmo = Some c" and "0 \<le> c" and "c < 2 ^ 53"
  shows "\<exists>stats w'. get_vm_performance w n = (Inr stats, w') \<and>
           storage_usage stats = py_round (of_int c / 2 ^ 30) 2 \<and>
           (\<exists>k::int. storage_usage stats = of_int k / 100 \<and>
                      \<bar>storage_usage stats - of_int c / 2 ^ 30\<bar> \<le> 1 / 200) \<and>
           (c = 11274289152 \<longrightarrow> storage_usage stats = 21 / 2)"
proof -
  have s: "storage_usage (core_stats vmo) = py_round (of_int c / 2 ^ 30) 2"
    using assms(3) storage_usage_gb_exact[OF assms(4,5)] by (simp add: core_stats_def)
  have ex: "c = 11274289152 \<longrightarrow> py_round (of_int c / 2 ^ 30) 2 = 21 / 2"
    by (simp add: py_round_def round_half_even_def Let_def)
  show ?thesis
  proof (cases "net_metrics w1 vm")
    case (Inl e)
    with assms(1,2) s ex py_round_two_decimals[of "of_int c / 2 ^ 30"] show ?thesis
      by (simp add: get_vm_performance_def fetch_def)
  next
    case (Inr p)
    with assms(1,2) s ex py_round_two_decimals[of "of_int c / 2 ^ 30"] show ?thesis
      by (cases p) (simp add: get_vm_performance_def fetch_def)
  qed
qed

text \<open>
  The machine \<open>web01\<close> of \<open>lab_world\<close> has 11,274,289,152 bytes committed.
\<close>

theorem stats_storage_usage_gb_witness:
  "\<exists>stats w'. get_vm_performance lab_world ''web01'' = (Inr stats, w') \<and>
     storage_usage stats = 21 / 2"
proof -
  have "objs lab_world (MoRef VirtualMachine 12) = Some (the (lab_objs (MoRef VirtualMachine 12)))"
    by (simp add: lab_world_def lab_objs_def)
  moreover have "storage_committed (the (lab_objs (MoRef VirtualMachine 12))) = Some 11274289152"
    by (simp add: lab_objs_def)
  moreover have "(0::int) \<le> 11274289152" and "(11274289152::int) < 2 ^ 53"
    by simp_all
  ultimately show ?thesis
    using stats_storage_usage_gb[OF find_vm_lab_web01, where c = 11274289152] by blast
qed

text \<open>
  C5.  When the block that queries the performance manager raises \<open>e\<close>, whatever \<open>e\<close>
  is, \<^verbatim>\<open>get_vm_performance\<close> still returns the statistics: CPU, memory and storage as
  read from the machine and both network entries \<open>None\<close> (not \<open>0\<close>).  Nothing is raised,
  and the log afterwards is the log before followed by one warning that carries \<open>e\<close>.
\<close>

theorem metrics_failure_gives_null:
  assumes "find_vm w n = (Inr (Some vm), w1)" and "objs w1 vm = Some vmo"
    and "net_metrics w1 vm = Inl e"
  shows "get_vm_performance w n =
           (Inr \<lparr>cpu_usage = overallCpuUsage vmo,
                 memory_usage = guestMemoryUsage vmo,
                 storage_usage = storage_usage_gb
                    (case storage_committed vmo of None \<Rightarrow> 0 | Some c \<Rightarrow> c),
                 network_transmit_KBps = None,
                 network_receive_KBps = None\<rparr>,
            log_add (LogWarning ''Failed to retrieve network performance data: '' e) w1) \<and>
         logged (snd (get_vm_performance w n)) =
           logged w1 @ [LogWarning ''Failed to retrieve network performance data: '' e]"
  using assms by (simp add: get_vm_performance_def fetch_def core_stats_def log_add_def)

lemma net_metrics_perfCounter_raises:
  "perfCounter w = Inl e \<Longrightarrow> net_metrics w vm = Inl e"
  by (simp add: net_metrics_def)

lemma net_metrics_QueryStats_raises:
  "perfCounter w = Inr cs \<Longrightarrow> net_counter_ids cs \<noteq> [] \<Longrightarrow>
   QueryStats w (net_query vm (net_counter_ids cs)) = Inl e \<Longrightarrow> net_metrics w vm = Inl e"
  by (simp add: net_metrics_def)

lemma lab_vm12:
  "lab_objs (MoRef VirtualMachine 12) =
     Some (mo\<lparr>name := ''web01'', parent := Some (MoRef Folder 5),
           runtime_host := Some (MoRef HostSystem 11), powerState := poweredOn,
           config := Some \<lparr>hardware = Some [OtherDevice,
                                               VirtualEthernetCard ''00-50-56-0a-0b-0c'']\<rparr>,
           overallCpuUsage := 100, guestMemoryUsage := 512,
           storage_committed := Some 11274289152\<rparr>)"
  by (simp add: lab_objs_def)

lemma first_named_cong_objs:
  "objs w' = objs w \<Longrightarrow> first_named w' n vms = first_named w n vms"
  by (induction vms) (simp_all add: fetch_def split: sum.splits)

lemma find_vm_same_inventory:
  assumes "objs w' = objs w" and "vm_view w' = vm_view w"
    and "find_vm w n = (Inr r, w)"
  shows "find_vm w' n = (Inr r, w')"
proof -
  from assms(3) have "first_named w n (vm_view w) = Inr r"
    by (auto simp: find_vm_def Let_def first_named_CreateContainerView
          vm_view_CreateContainerView split: sum.splits)
  with assms(2) first_named_cong_objs[OF assms(1), of n "vm_view w"]
  have "first_named w' n (vm_view w') = Inr r"
    by simp
  then show ?thesis by (rule find_vm_value)
qed

text \<open>
  The theorem where the counter listing raises, and where the query itself raises.
\<close>

theorem metrics_failure_gives_null_witness:
  "fst (get_vm_performance perf_down_world ''web01'') =
     Inr \<lparr>cpu_usage = 100, memory_usage = 512, storage_usage = 21 / 2,
          network_transmit_KBps = None, network_receive_KBps = None\<rparr> \<and>
   logged perf_down_world = [] \<and>
   logged (snd (get_vm_performance perf_down_world ''web01'')) =
     [LogWarning ''Failed to retrieve network performance data: ''
        (MethodFault ''perf service unavailable'')] \<and>
   fst (get_vm_performance query_down_world ''web01'') =
     Inr \<lparr>cpu_usage = 100, memory_usage = 512, storage_usage = 21 / 2,
          network_transmit_KBps = None, network_receive_KBps = None\<rparr> \<and>
   logged query_down_world = [] \<and>
   logged (snd (get_vm_performance query_down_world ''web01'')) =
     [LogWarning ''Failed to retrieve network performance data: ''
        (MethodFault ''query failed'')]"
proof -
  let ?vm = "MoRef VirtualMachine 12"
  have f: "find_vm perf_down_world ''web01'' = (Inr (Some ?vm), perf_down_world)"
    by (rule find_vm_same_inventory[OF _ _ find_vm_lab_web01]) (simp_all add: perf_down_world_def)
  have o: "objs perf_down_world ?vm = Some (the (lab_objs ?vm))"
    by (simp add: perf_down_world_def lab_world_def lab_vm12)
  have m: "net_metrics perf_down_world ?vm = Inl (MethodFault ''perf service unavailable'')"
    by (rule net_metrics_perfCounter_raises) (simp add: perf_down_world_def)
  have l: "logged perf_down_world = []"
    by (simp add: perf_down_world_def lab_world_def blank_world_def)
  have f': "find_vm query_down_world ''web01'' = (Inr (Some ?vm), query_down_world)"
    by (rule find_vm_same_inventory[OF _ _ find_vm_lab_web01]) (simp_all add: query_down_world_def)
  have o': "objs query_down_world ?vm = Some (the (lab_objs ?vm))"
    by (simp add: query_down_world_def lab_world_def lab_vm12)
  have m': "net_metrics query_down_world ?vm = Inl (MethodFault ''query failed'')"
    by (rule net_metrics_QueryStats_raises[where cs = net_counters])
       (simp_all add: query_down_world_def net_counter_ids_example)
  have l': "logged query_down_world = []"
    by (simp add: query_down_world_def lab_world_def blank_world_def)
  from metrics_failure_gives_null[OF f o m] metrics_failure_gives_null[OF f' o' m'] l l'
  show ?thesis
    by (simp add: lab_vm12 mo_def storage_example log_add_def)
qed

lemma tally_series_no_match:
  "tally_series ids ss acc = Inr r \<Longrightarrow> \<forall>s\<in>set ss. counterId s \<notin> set (take 2 ids) \<Longrightarrow> r = acc"
proof (induction ss arbitrary: acc)
  case Nil
  then show ?case by simp
next
  case (Cons s ss)
  obtain tx rx where acc: "acc = (tx, rx)" by (cases acc)
  from Cons.prems have rest: "\<forall>s\<in>set ss. counterId s \<notin> set (take 2 ids)"
    and hd: "counterId s \<notin> set (take 2 ids)" by simp_all
  from Cons.prems(1) hd acc have "tally_series ids ss acc = Inr r"
    by (cases ids; cases "tl ids") (auto split: if_splits list.splits)
  then show ?case using rest by (rule Cons.IH)
qed

text \<open>
  C10.  With the machine found: if no counter has one of the two network names the
  network entries are \<open>0\<close>; if counters are found, the block does not raise and no
  returned series belongs to one of the first two of them, they are \<open>0\<close> as well; in
  general a block that completes with \<open>(tx, rx)\<close> reports exactly these; and an entry is
  \<open>None\<close> only if the block raised.
\<close>

theorem metrics_zero_without_exception:
  assumes "find_vm w n = (Inr (Some vm), w1)" and "objs w1 vm = Some vmo"
  shows
    "(\<forall>cs. perfCounter w1 = Inr cs \<and> net_counter_ids cs = [] \<longrightarrow>
        get_vm_performance w n =
          (Inr ((core_stats vmo)\<lparr>network_transmit_KBps := Some 0,
                                  network_receive_KBps := Some 0\<rparr>), w1)) \<and>
     (\<forall>cs em ems r. perfCounter w1 = Inr cs \<and> net_counter_ids cs \<noteq> [] \<and>
          QueryStats w1 (net_query vm (net_counter_ids cs)) = Inr (em # ems) \<and>
          (\<forall>s\<in>set em. counterId s \<notin> set (take 2 (net_counter_ids cs))) \<and>
          net_metrics w1 vm = Inr r \<longrightarrow>
        get_vm_performance w n =
          (Inr ((core_stats vmo)\<lparr>network_transmit_KBps := Some 0,
                                  network_receive_KBps := Some 0\<rparr>), w1)) \<and>
     (\<forall>tx rx. net_metrics w1 vm = Inr (tx, rx) \<longrightarrow>
        get_vm_performance w n =
          (Inr ((core_stats vmo)\<lparr>network_transmit_KBps := Some tx,
                                  network_receive_KBps := Some rx\<rparr>), w1)) \<and>
     (\<forall>stats w'. get_vm_performance w n = (Inr stats, w') \<and>
          (network_transmit_KBps stats = None \<or> network_receive_KBps stats = None) \<longrightarrow>
        (\<exists>e. net_metrics w1 vm = Inl e))"
proof (intro conjI allI impI)
  fix cs assume "perfCounter w1 = Inr cs \<and> net_counter_ids cs = []"
  then have "net_metrics w1 vm = Inr (0, 0)" by (simp add: net_metrics_def)
  with assms show "get_vm_performance w n =
          (Inr ((core_stats vmo)\<lparr>network_transmit_KBps := Some 0,
                                  network_receive_KBps := Some 0\<rparr>), w1)"
    by (simp add: get_vm_performance_def fetch_def)
next
  fix cs em ems r
  assume h: "perfCounter w1 = Inr cs \<and> net_counter_ids cs \<noteq> [] \<and>
          QueryStats w1 (net_query vm (net_counter_ids cs)) = Inr (em # ems) \<and>
          (\<forall>s\<in>set em. counterId s \<notin> set (take 2 (net_counter_ids cs))) \<and>
          net_metrics w1 vm = Inr r"
  then have "tally_series (net_counter_ids cs) em (0, 0) = Inr r"
    by (auto simp: net_metrics_def Let_def)
  with h have "r = (0, 0)" by (blast dest: tally_series_no_match)
  with h have "net_metrics w1 vm = Inr (0, 0)" by simp
  with assms show "get_vm_performance w n =
          (Inr ((core_stats vmo)\<lparr>network_transmit_KBps := Some 0,
                                  network_receive_KBps := Some 0\<rparr>), w1)"
    by (simp add: get_vm_performance_def fetch_def)
next
  fix tx rx assume "net_metrics w1 vm = Inr (tx, rx)"
  with assms show "get_vm_performance w n =
          (Inr ((core_stats vmo)\<lparr>network_transmit_KBps := Some tx,
                                  network_receive_KBps := Some rx\<rparr>), w1)"
    by (simp add: get_vm_performance_def fetch_def)
next
  fix stats w'
  assume h: "get_vm_performance w n = (Inr stats, w') \<and>
          (network_transmit_KBps stats = None \<or> network_receive_KBps stats = None)"
  show "\<exists>e. net_metrics w1 vm = Inl e"
  proof (cases "net_metrics w1 vm")
    case (Inl e)
    then show ?thesis by blast
  next
    case (Inr p)
    with assms h show ?thesis
      by (cases p) (auto simp: get_vm_performance_def fetch_def)
  qed
qed

lemma core_stats_web01:
  "core_stats (the (lab_objs (MoRef VirtualMachine 12))) =
     \<lparr>cpu_usage = 100, memory_usage = 512, storage_usage = 21 / 2,
      network_transmit_KBps = None, network_receive_KBps = None\<rparr>"
  by (simp add: lab_vm12 core_stats_def storage_example)

text \<open>
  The four parts of the theorem at \<open>lab_world\<close> (no counters), \<open>no_series_world\<close>,
  \<open>busy_world\<close> and \<open>perf_down_world\<close>.
\<close>

theorem metrics_zero_without_exception_witness:
  "get_vm_performance lab_world ''web01'' =
     (Inr \<lparr>cpu_usage = 100, memory_usage = 512, storage_usage = 21 / 2,
           network_transmit_KBps = Some 0, network_receive_KBps = Some 0\<rparr>, lab_world) \<and>
   get_vm_performance no_series_world ''web01'' =
     (Inr \<lparr>cpu_usage = 100, memory_usage = 512, storage_usage = 21 / 2,
           network_transmit_KBps = Some 0, network_receive_KBps = Some 0\<rparr>, no_series_world) \<and>
   get_vm_performance busy_world ''web01'' =
     (Inr \<lparr>cpu_usage = 100, memory_usage = 512, storage_usage = 21 / 2,
           network_transmit_KBps = Some 1000, network_receive_KBps = Some 500\<rparr>, busy_world) \<and>
   (\<exists>e. net_metrics perf_down_world (MoRef VirtualMachine 12) = Inl e)"
proof (intro conjI)
  let ?vm = "MoRef VirtualMachine 12"
  let ?vmo = "the (lab_objs ?vm)"
  have o: "objs lab_world ?vm = Some ?vmo"
    by (simp add: lab_world_def lab_vm12)
  have c: "perfCounter lab_world = Inr [] \<and> net_counter_ids [] = []"
    by (simp add: lab_world_def blank_world_def net_counter_ids_def)
  from metrics_zero_without_exception[OF find_vm_lab_web01 o] c
  have "get_vm_performance lab_world ''web01'' =
          (Inr ((core_stats ?vmo)\<lparr>network_transmit_KBps := Some 0,
                                  network_receive_KBps := Some 0\<rparr>), lab_world)"
    by blast
  then show "get_vm_performance lab_world ''web01'' =
     (Inr \<lparr>cpu_usage = 100, memory_usage = 512, storage_usage = 21 / 2,
           network_transmit_KBps = Some 0, network_receive_KBps = Some 0\<rparr>, lab_world)"
    by (simp add: core_stats_web01)
next
  let ?vm = "MoRef VirtualMachine 12"
  let ?vmo = "the (lab_objs ?vm)"
  let ?em = "[\<lparr>counterId = 2, series_value = [7]\<rparr>]"
  have f: "find_vm no_series_world ''web01'' = (Inr (Some ?vm), no_series_world)"
    by (rule find_vm_same_inventory[OF _ _ find_vm_lab_web01]) (simp_all add: no_series_world_def)
  have o: "objs no_series_world ?vm = Some ?vmo"
    by (simp add: no_series_world_def lab_world_def lab_vm12)
  have m: "net_metrics no_series_world ?vm = Inr (0, 0)"
    by (simp add: net_metrics_def no_series_world_def net_counter_ids_example)
  have h: "perfCounter no_series_world = Inr net_counters \<and> net_counter_ids net_counters \<noteq> [] \<and>
          QueryStats no_series_world (net_query ?vm (net_counter_ids net_counters)) = Inr (?em # []) \<and>
          (\<forall>s\<in>set ?em. counterId s \<notin> set (take 2 (net_counter_ids net_counters))) \<and>
          net_metrics no_series_world ?vm = Inr (0, 0)"
    using m by (simp add: no_series_world_def net_counter_ids_example)
  from metrics_zero_without_exception[OF f o] h
  have "get_vm_performance no_series_world ''web01'' =
          (Inr ((core_stats ?vmo)\<lparr>network_transmit_KBps := Some 0,
                                  network_receive_KBps := Some 0\<rparr>), no_series_world)"
    by blast
  then show "get_vm_performance no_series_world ''web01'' =
     (Inr \<lparr>cpu_usage = 100, memory_usage = 512, storage_usage = 21 / 2,
           network_transmit_KBps = Some 0, network_receive_KBps = Some 0\<rparr>, no_series_world)"
    by (simp add: core_stats_web01)
next
  let ?vm = "MoRef VirtualMachine 12"
  let ?vmo = "the (lab_objs ?vm)"
  have f: "find_vm busy_world ''web01'' = (Inr (Some ?vm), busy_world)"
    by (rule find_vm_same_inventory[OF _ _ find_vm_lab_web01]) (simp_all add: busy_world_def)
  have o: "objs busy_world ?vm = Some ?vmo"
    by (simp add: busy_world_def lab_world_def lab_vm12)
  have m: "net_metrics busy_world ?vm = Inr (1000, 500)"
    by (simp add: net_metrics_def busy_world_def net_counter_ids_example)
  from metrics_zero_without_exception[OF f o] m
  have "get_vm_performance busy_world ''web01'' =
          (Inr ((core_stats ?vmo)\<lparr>network_transmit_KBps := Some 1000,
                                  network_receive_KBps := Some 500\<rparr>), busy_world)"
    by blast
  then show "get_vm_performance busy_world ''web01'' =
     (Inr \<lparr>cpu_usage = 100, memory_usage = 512, storage_usage = 21 / 2,
           network_transmit_KBps = Some 1000, network_receive_KBps = Some 500\<rparr>, busy_world)"
    by (simp add: core_stats_web01)
next
  let ?vm = "MoRef VirtualMachine 12"
  let ?vmo = "the (lab_objs ?vm)"
  let ?w = "log_add (LogWarning ''Failed to retrieve network performance data: ''
                 (MethodFault ''perf service unavailable'')) perf_down_world"
  have f: "find_vm perf_down_world ''web01'' = (Inr (Some ?vm), perf_down_world)"
    by (rule find_vm_same_inventory[OF _ _ find_vm_lab_web01]) (simp_all add: perf_down_world_def)
  have o: "objs perf_down_world ?vm = Some ?vmo"
    by (simp add: perf_down_world_def lab_world_def lab_vm12)
  have g: "get_vm_performance perf_down_world ''web01'' = (Inr (core_stats ?vmo), ?w) \<and>
           (network_transmit_KBps (core_stats ?vmo) = None \<or>
            network_receive_KBps (core_stats ?vmo) = None)"
    using f o
    by (simp add: get_vm_performance_def fetch_def net_metrics_def perf_down_world_def
                  core_stats_web01)
  from metrics_zero_without_exception[OF f o] g
  show "\<exists>e. net_metrics perf_down_world ?vm = Inl e" by blast
qed

subsection \<open>Tasks, power operations, deletion and creation\<close>

text \<open>
  The polling loop returns at the first terminal read, however many reads precede it.
\<close>

lemma wait_terminal_from:
  assumes "\<forall>i<k. \<not> terminal (state (reads i))" and "terminal (state (reads k))"
  shows "j \<le> k \<Longrightarrow> wait_terminal reads j = Some k"
proof (induction "k - j" arbitrary: j)
  case 0
  then have "j = k" by simp
  with assms(2) show ?case by (subst wait_terminal.simps) simp
next
  case (Suc d)
  then have "j < k" and "d = k - Suc j" and "Suc j \<le> k" by simp_all
  with assms(1) Suc.hyps(1)[of "Suc j"] show ?case
    by (subst wait_terminal.simps) simp
qed

lemma await_task_error:
  assumes "settles_at reads k" and "state (reads k) = error" and "error_fault (reads k) = Some f"
  shows "await_task reads = Some (Inl f)"
proof -
  from assms(1) have run: "\<forall>i<k. \<not> terminal (state (reads i))"
    and stop: "terminal (state (reads k))" and stable: "\<forall>j>k. reads j = reads k"
    unfolding settles_at_def by blast+
  have "wait_terminal reads 0 = Some k"
    using run stop by (rule wait_terminal_from) simp
  moreover from stable have "reads (k + 1) = reads k" "reads (k + 2) = reads k"
    by auto
  ultimately show ?thesis using assms(2,3) by (simp add: await_task_def)
qed

lemma await_task_success:
  assumes "settles_at reads k" and "state (reads k) = success"
  shows "await_task reads = Some (Inr ())"
proof -
  from assms(1) have run: "\<forall>i<k. \<not> terminal (state (reads i))"
    and stop: "terminal (state (reads k))" and stable: "\<forall>j>k. reads j = reads k"
    unfolding settles_at_def by blast+
  have "wait_terminal reads 0 = Some k"
    using run stop by (rule wait_terminal_from) simp
  moreover from stable have "reads (k + 1) = reads k"
    by auto
  ultimately show ?thesis using assms(2) by (simp add: await_task_def)
qed

lemma find_vm_submitted: "find_vm w n = (r, w1) \<Longrightarrow> submitted w1 = submitted w"
  by (auto simp: find_vm_def Let_def CreateContainerView_def Destroy_def split: sum.splits)

text \<open>
  C2.  When \<^verbatim>\<open>find_vm\<close> finds the machine and it is already powered on,
  \<^verbatim>\<open>power_on_vm\<close> returns the ``already powered on'' message and the list of submitted
  tasks is the one before the call; likewise \<^verbatim>\<open>power_off_vm\<close> on a machine that is
  powered off.
\<close>

theorem power_noop_in_target_state:
  assumes "find_vm w n = (Inr (Some vm), w1)" and "objs w1 vm = Some vmo"
  shows "(powerState vmo = poweredOn \<longrightarrow>
            power_on_vm w n =
              Some (Inr (''VM '' @ sq @ n @ sq @ '' is already powered on.''), w1) \<and>
            submitted w1 = submitted w) \<and>
         (powerState vmo = poweredOff \<longrightarrow>
            power_off_vm w n =
              Some (Inr (''VM '' @ sq @ n @ sq @ '' is already powered off.''), w1) \<and>
            submitted w1 = submitted w)"
  using assms find_vm_submitted[OF assms(1)]
  by (simp add: power_on_vm_def power_off_vm_def fetch_def)

lemma lab_vm13:
  "lab_objs (MoRef VirtualMachine 13) =
     Some (mo\<lparr>name := ''db01'', parent := Some (MoRef Folder 5),
           runtime_host := Some (MoRef HostSystem 11), powerState := poweredOff,
           config := Some \<lparr>hardware = Some [VirtualEthernetCard ''00:50:56:AA:BB:CC'']\<rparr>\<rparr>)"
  by (simp add: lab_objs_def)

text \<open>
  \<open>web01\<close> is powered on and \<open>db01\<close> is powered off in \<open>lab_world\<close>.
\<close>

theorem power_noop_in_target_state_witness:
  "power_on_vm lab_world ''web01'' =
     Some (Inr (''VM '' @ sq @ ''web01'' @ sq @ '' is already powered on.''), lab_world) \<and>
   power_off_vm lab_world ''db01'' =
     Some (Inr (''VM '' @ sq @ ''db01'' @ sq @ '' is already powered off.''), lab_world) \<and>
   submitted lab_world = []"
proof (intro conjI)
  have o: "objs lab_world (MoRef VirtualMachine 12) = Some (the (lab_objs (MoRef VirtualMachine 12)))"
    by (simp add: lab_world_def lab_vm12)
  have p: "powerState (the (lab_objs (MoRef VirtualMachine 12))) = poweredOn"
    by (simp add: lab_vm12)
  from power_noop_in_target_state[OF find_vm_lab_web01 o] p
  show "power_on_vm lab_world ''web01'' =
     Some (Inr (''VM '' @ sq @ ''web01'' @ sq @ '' is already powered on.''), lab_world)"
    by blast
next
  have o: "objs lab_world (MoRef VirtualMachine 13) = Some (the (lab_objs (MoRef VirtualMachine 13)))"
    by (simp add: lab_world_def lab_vm13)
  have p: "powerState (the (lab_objs (MoRef VirtualMachine 13))) = poweredOff"
    by (simp add: lab_vm13)
  from power_noop_in_target_state[OF find_vm_lab_db01 o] p
  show "power_off_vm lab_world ''db01'' =
     Some (Inr (''VM '' @ sq @ ''db01'' @ sq @ '' is already powered off.''), lab_world)"
    by blast
next
  show "submitted lab_world = []" by (simp add: lab_world_def blank_world_def)
qed

lemma settles_at_failing:
  "settles_at (task_reads failing_task_world h) 3 \<and>
   state (task_reads failing_task_world h 3) = error \<and>
   error_fault (task_reads failing_task_world h 3) = Some (MethodFault ''The operation is not allowed'')"
  by (simp add: settles_at_def failing_task_world_def terminal_def)

lemma settles_at_slow:
  "settles_at (task_reads slow_task_world h) 5 \<and>
   state (task_reads slow_task_world h 5) = success"
  by (simp add: settles_at_def slow_task_world_def terminal_def)

text \<open>
  C3.  Let the reads of the submitted task settle at read \<open>k\<close>, after any number of
  non-terminal reads.  If the settled state is \<open>error\<close> with fault \<open>f\<close>, the driver raises
  \<open>f\<close> itself, and so do \<^verbatim>\<open>delete_vm\<close> and \<^verbatim>\<open>create_vm\<close>, whose handlers only log
  and re-raise; if it is \<open>success\<close>, they return their confirmation message.
\<close>

theorem task_outcome_surfaces_unchanged:
  assumes "settles_at reads k" and "reads = task_reads w1 (length (submitted w1))"
  shows
    "(state (reads k) = error \<and> error_fault (reads k) = Some f \<longrightarrow>
        await_task reads = Some (Inl f)) \<and>
     (state (reads k) = success \<longrightarrow> await_task reads = Some (Inr ())) \<and>
     (find_vm w n = (Inr (Some vm), w1) \<longrightarrow>
        (state (reads k) = error \<and> error_fault (reads k) = Some f \<longrightarrow>
           delete_vm w n =
             Some (Inl f, log_add (LogError ''Failed to delete virtual machine: '' f)
                            (snd (submit w1 (Destroy_Task vm))))) \<and>
        (state (reads k) = success \<longrightarrow>
           delete_vm w n =
             Some (Inr (''VM '' @ sq @ n @ sq @ '' deleted.''),
                   log_add (LogInfo (''Virtual machine deleted: '' @ n))
                     (snd (submit w1 (Destroy_Task vm)))))) \<and>
     (resolve_datastore m w1 datastore = Inr ds \<and> resolve_network m w1 network = Inr net \<and>
      nic_specs w1 net = Inr nics \<and> objs w1 (datacenter_obj m) = Some dco \<longrightarrow>
        (state (reads k) = error \<and> error_fault (reads k) = Some f \<longrightarrow>
           (\<exists>w2. create_vm m w1 n cpus memory_mb datastore network = Some (Inl f, w2) \<and>
                 logged w2 = logged w1 @ [LogError ''Failed to create virtual machine: '' f])) \<and>
        (state (reads k) = success \<longrightarrow>
           (\<exists>w2. create_vm m w1 n cpus memory_mb datastore network =
                   Some (Inr (''VM '' @ sq @ n @ sq @ '' created.''), w2))))"
proof (intro conjI impI)
  assume "state (reads k) = error \<and> error_fault (reads k) = Some f"
  with assms(1) show "await_task reads = Some (Inl f)" by (blast intro: await_task_error)
next
  assume "state (reads k) = success"
  with assms(1) show "await_task reads = Some (Inr ())" by (blast intro: await_task_success)
next
  assume f: "find_vm w n = (Inr (Some vm), w1)"
    and e: "state (reads k) = error \<and> error_fault (reads k) = Some f"
  from assms(1) e have "await_task reads = Some (Inl f)" by (blast intro: await_task_error)
  with f assms(2) show "delete_vm w n =
             Some (Inl f, log_add (LogError ''Failed to delete virtual machine: '' f)
                            (snd (submit w1 (Destroy_Task vm))))"
    by (simp add: delete_vm_def submit_def)
next
  assume f: "find_vm w n = (Inr (Some vm), w1)" and e: "state (reads k) = success"
  from assms(1) e have "await_task reads = Some (Inr ())" by (blast intro: await_task_success)
  with f assms(2) show "delete_vm w n =
             Some (Inr (''VM '' @ sq @ n @ sq @ '' deleted.''),
                   log_add (LogInfo (''Virtual machine deleted: '' @ n))
                     (snd (submit w1 (Destroy_Task vm))))"
    by (simp add: delete_vm_def submit_def)
next
  assume r: "resolve_datastore m w1 datastore = Inr ds \<and> resolve_network m w1 network = Inr net \<and>
      nic_specs w1 net = Inr nics \<and> objs w1 (datacenter_obj m) = Some dco"
    and e: "state (reads k) = error \<and> error_fault (reads k) = Some f"
  from assms(1) e have "await_task reads = Some (Inl f)" by (blast intro: await_task_error)
  with r assms(2)
  show "\<exists>w2. create_vm m w1 n cpus memory_mb datastore network = Some (Inl f, w2) \<and>
                 logged w2 = logged w1 @ [LogError ''Failed to create virtual machine: '' f]"
    by (simp add: create_vm_def submit_def fetch_def Let_def log_add_def)
next
  assume r: "resolve_datastore m w1 datastore = Inr ds \<and> resolve_network m w1 network = Inr net \<and>
      nic_specs w1 net = Inr nics \<and> objs w1 (datacenter_obj m) = Some dco"
    and e: "state (reads k) = success"
  from assms(1) e have "await_task reads = Some (Inr ())" by (blast intro: await_task_success)
  with r assms(2)
  show "\<exists>w2. create_vm m w1 n cpus memory_mb datastore network =
                   Some (Inr (''VM '' @ sq @ n @ sq @ '' created.''), w2)"
    by (simp add: create_vm_def submit_def fetch_def Let_def)
qed

lemma lab_dc1:
  "lab_objs (MoRef Datacenter 1) =
     Some (mo\<lparr>name := ''DC1'', parent := Some (MoRef Folder 0), hostFolder := MoRef Folder 2,
           datastoreFolder := MoRef Folder 3, networkFolder := MoRef Folder 4,
           vmFolder := MoRef Folder 5\<rparr>)"
  by (simp add: lab_objs_def)

text \<open>
  Deleting \<open>db01\<close> and creating a machine where tasks fail after three reads, and where
  they succeed after five.
\<close>

theorem task_outcome_surfaces_unchanged_witness:
  "map_option fst (delete_vm failing_task_world ''db01'') =
     Some (Inl (MethodFault ''The operation is not allowed'')) \<and>
   map_option fst (delete_vm slow_task_world ''db01'') =
     Some (Inr (''VM '' @ sq @ ''db01'' @ sq @ '' deleted.'')) \<and>
   map_option fst (create_vm lab_manager failing_task_world ''new'' 2 1024 None None) =
     Some (Inl (MethodFault ''The operation is not allowed'')) \<and>
   map_option fst (create_vm lab_manager slow_task_world ''new'' 2 1024 None None) =
     Some (Inr (''VM '' @ sq @ ''new'' @ sq @ '' created.''))"
proof (intro conjI)
  let ?w = failing_task_world
  let ?reads = "task_reads ?w (length (submitted ?w))"
  have f: "find_vm ?w ''db01'' = (Inr (Some (MoRef VirtualMachine 13)), ?w)"
    by (rule find_vm_same_inventory[OF _ _ find_vm_lab_db01])
       (simp_all add: failing_task_world_def)
  have s: "settles_at ?reads 3" and e: "state (?reads 3) = error \<and>
      error_fault (?reads 3) = Some (MethodFault ''The operation is not allowed'')"
    using settles_at_failing by blast+
  from task_outcome_surfaces_unchanged[OF s refl,
         where f = "MethodFault ''The operation is not allowed''" and w = ?w
           and n = "''db01''" and vm = "MoRef VirtualMachine 13"] f e
  show "map_option fst (delete_vm ?w ''db01'') =
          Some (Inl (MethodFault ''The operation is not allowed''))"
    by simp
  have r: "resolve_datastore lab_manager ?w None = Inr (MoRef Datastore 8) \<and>
           resolve_network lab_manager ?w None = Inr None \<and>
           nic_specs ?w None = Inr [] \<and>
           objs ?w (datacenter_obj lab_manager) = Some (the (lab_objs (MoRef Datacenter 1)))"
    by (simp add: resolve_datastore_def resolve_network_def nic_specs_def lab_manager_def
                  failing_task_world_def lab_world_def lab_objs_def)
  from task_outcome_surfaces_unchanged[OF s refl,
         where f = "MethodFault ''The operation is not allowed''" and m = lab_manager
           and datastore = None and network = None and n = "''new''" and cpus = 2
           and memory_mb = 1024 and ds = "MoRef Datastore 8" and net = None and nics = "[]"
           and dco = "the (lab_objs (MoRef Datacenter 1))"] r e
  show "map_option fst (create_vm lab_manager ?w ''new'' 2 1024 None None) =
          Some (Inl (MethodFault ''The operation is not allowed''))"
    by auto
next
  let ?w = slow_task_world
  let ?reads = "task_reads ?w (length (submitted ?w))"
  have f: "find_vm ?w ''db01'' = (Inr (Some (MoRef VirtualMachine 13)), ?w)"
    by (rule find_vm_same_inventory[OF _ _ find_vm_lab_db01])
       (simp_all add: slow_task_world_def)
  have s: "settles_at ?reads 5" and e: "state (?reads 5) = success"
    using settles_at_slow by blast+
  from task_outcome_surfaces_unchanged[OF s refl,
         where w = ?w and n = "''db01''" and vm = "MoRef VirtualMachine 13"] f e
  show "map_option fst (delete_vm ?w ''db01'') =
          Some (Inr (''VM '' @ sq @ ''db01'' @ sq @ '' deleted.''))"
    by simp
  have r: "resolve_datastore lab_manager ?w None = Inr (MoRef Datastore 8) \<and>
           resolve_network lab_manager ?w None = Inr None \<and>
           nic_specs ?w None = Inr [] \<and>
           objs ?w (datacenter_obj lab_manager) = Some (the (lab_objs (MoRef Datacenter 1)))"
    by (simp add: resolve_datastore_def resolve_network_def nic_specs_def lab_manager_def
                  slow_task_world_def lab_world_def lab_objs_def)
  from task_outcome_surfaces_unchanged[OF s refl,
         where m = lab_manager and datastore = None and network = None and n = "''new''"
           and cpus = 2 and memory_mb = 1024 and ds = "MoRef Datastore 8" and net = None
           and nics = "[]" and dco = "the (lab_objs (MoRef Datacenter 1))"] r e
  show "map_option fst (create_vm lab_manager ?w ''new'' 2 1024 None None) =
          Some (Inr (''VM '' @ sq @ ''new'' @ sq @ '' created.''))"
    by auto
qed

subsection \<open>Unresolvable names, view handles and MAC matching\<close>




text \<open>
  What the three traversals do with their view handle: \<^verbatim>\<open>list_vms\<close> and \<^verbatim>\<open>find_vm\<close>
  release it when the loop completes and keep it alive when the loop raises;
  \<^verbatim>\<open>find_vm_by_mac\<close> releases it whenever it returns or raises.
\<close>

lemma vm_names_CreateContainerView:
  "vm_names (CreateContainerView w) vms = vm_names w vms"
  by (induction vms) (simp_all add: fetch_CreateContainerView split: sum.splits)

lemma list_vms_returns_releases: "list_vms w = (Inr ns, w') \<Longrightarrow> w' = w"
  by (auto simp: list_vms_def Let_def Destroy_CreateContainerView split: sum.splits)

lemma list_vms_raises_leaks: "list_vms w = (Inl e, w') \<Longrightarrow> open_views w' = Suc (open_views w)"
  by (auto simp: list_vms_def Let_def CreateContainerView_def split: sum.splits)

lemma find_vm_raises_leaks: "find_vm w n = (Inl e, w') \<Longrightarrow> open_views w' = Suc (open_views w)"
  by (auto simp: find_vm_def Let_def CreateContainerView_def split: sum.splits)

lemma find_vm_by_mac_releases: "find_vm_by_mac w t = Some (r, w') \<Longrightarrow> w' = w"
  by (auto simp: find_vm_by_mac_def find_vm_by_mac_result_def Let_def Destroy_CreateContainerView
           split: option.splits sum.splits prod.splits)

lemma vm_names_stale:
  "vm_names stale_world (vm_view stale_world) = Inl (ManagedObjectNotFound (MoRef VirtualMachine 99))"
  by (simp add: stale_world_def lab_world_def blank_world_def lab_objs_def fetch_def)

lemma first_named_stale:
  "first_named stale_world ''db01'' (vm_view stale_world) =
     Inl (ManagedObjectNotFound (MoRef VirtualMachine 99))"
  by (simp add: stale_world_def lab_world_def blank_world_def lab_objs_def fetch_def)

lemma clean_mac_examples:
  "clean_mac ''00:50:56:0A:0B:0C'' = ''0050560a0b0c''"
  "clean_mac ''00-50-56-0a-0b-0c'' = ''0050560a0b0c''"
  "clean_mac ''0050560A0B0C'' = ''0050560a0b0c''"
  "clean_mac ''00:50:56:AA:BB:CC'' = ''005056aabbcc''"
  by code_simp+

text \<open>
  C7 fails for \<^verbatim>\<open>list_vms\<close> and \<^verbatim>\<open>find_vm\<close>.  In \<open>stale_world\<close> the view lists
  machine 99, which the inventory no longer holds.  Reading its name raises
  \<^verbatim>\<open>ManagedObjectNotFound\<close>; both functions leave with the exception and one view handle
  stays alive.  \<^verbatim>\<open>find_vm_by_mac\<close>, whose loop is inside \<^verbatim>\<open>try\<close> ... \<^verbatim>\<open>finally\<close>, raises
  the same exception on the same inventory and leaves no handle behind.
\<close>

theorem traversals_leak_view_on_exception:
  "open_views stale_world = 0 \<and>
   fst (list_vms stale_world) = Inl (ManagedObjectNotFound (MoRef VirtualMachine 99)) \<and>
   open_views (snd (list_vms stale_world)) = 1 \<and>
   fst (find_vm stale_world ''db01'') = Inl (ManagedObjectNotFound (MoRef VirtualMachine 99)) \<and>
   open_views (snd (find_vm stale_world ''db01'')) = 1 \<and>
   find_vm_by_mac stale_world ''00:50:56:AA:BB:CC'' =
     Some (Inl (ManagedObjectNotFound (MoRef VirtualMachine 99)), stale_world)"
proof -
  have 0: "open_views stale_world = 0"
    by (simp add: stale_world_def lab_world_def blank_world_def)
  have l: "list_vms stale_world =
             (Inl (ManagedObjectNotFound (MoRef VirtualMachine 99)), CreateContainerView stale_world)"
    by (simp add: list_vms_def Let_def vm_names_CreateContainerView vm_view_CreateContainerView
                  vm_names_stale)
  have f: "find_vm stale_world ''db01'' =
             (Inl (ManagedObjectNotFound (MoRef VirtualMachine 99)), CreateContainerView stale_world)"
    by (rule find_vm_raises) (rule first_named_stale)
  have v: "vm_view stale_world =
             [MoRef VirtualMachine 12, MoRef VirtualMachine 99, MoRef VirtualMachine 13]"
    by (simp add: stale_world_def)
  have o: "fetch stale_world (MoRef VirtualMachine 12) = Inr (the (lab_objs (MoRef VirtualMachine 12)))"
    "fetch stale_world (MoRef VirtualMachine 99) = Inl (ManagedObjectNotFound (MoRef VirtualMachine 99))"
    by (simp_all add: fetch_def stale_world_def lab_world_def lab_objs_def)
  have m: "find_vm_by_mac stale_world ''00:50:56:AA:BB:CC'' =
     Some (Inl (ManagedObjectNotFound (MoRef VirtualMachine 99)), stale_world)"
    by (simp add: find_vm_by_mac_def find_vm_by_mac_result_def Let_def
                  vm_view_CreateContainerView fetch_CreateContainerView
                  Destroy_CreateContainerView v o lab_vm12 clean_mac_examples)
  show ?thesis
    by (simp add: 0 l f m) (simp add: CreateContainerView_def 0)
qed

text \<open>
  C4.  Let \<open>a\<close> and \<open>b\<close> be equal after \<^verbatim>\<open>re.sub(r'[^a-fA-F0-9]', '', _).lower()\<close>.
  Then a device address matches \<open>a\<close> exactly when it matches \<open>b\<close>, the search ends with
  the same value of \<^verbatim>\<open>result\<close>, the same exception or the same non-termination, in the
  same world, and \<^verbatim>\<open>find_vm_by_mac\<close> returns the same text for both whenever a machine is
  found.  When none is found each call returns the not-found message, which quotes its
  own argument as typed.
\<close>

theorem mac_match_by_normal_form:
  assumes "clean_mac a = clean_mac b"
  shows
    "(\<forall>mac. (clean_mac mac = clean_mac a) = (clean_mac mac = clean_mac b)) \<and>
     find_vm_by_mac_result w a = find_vm_by_mac_result w b \<and>
     (\<forall>res w'. find_vm_by_mac_result w a = Some (Inr (Some res), w') \<longrightarrow>
        find_vm_by_mac w a = Some (Inr res, w') \<and> find_vm_by_mac w b = Some (Inr res, w')) \<and>
     (\<forall>e w'. find_vm_by_mac_result w a = Some (Inl e, w') \<longrightarrow>
        find_vm_by_mac w a = Some (Inl e, w') \<and> find_vm_by_mac w b = Some (Inl e, w')) \<and>
     (\<forall>w'. find_vm_by_mac_result w a = Some (Inr None, w') \<longrightarrow>
        find_vm_by_mac w a = Some (Inr (''No VM found with MAC address '' @ a), w') \<and>
        find_vm_by_mac w b = Some (Inr (''No VM found with MAC address '' @ b), w')) \<and>
     (find_vm_by_mac_result w a = None \<longrightarrow>
        find_vm_by_mac w a = None \<and> find_vm_by_mac w b = None)"
proof -
  have r: "find_vm_by_mac_result w a = find_vm_by_mac_result w b"
    using assms by (simp add: find_vm_by_mac_result_def)
  show ?thesis
    using assms r by (simp add: find_vm_by_mac_def)
qed

lemma get_parent_info_web01_in_view:
  "get_parent_info (CreateContainerView lab_world) (MoRef VirtualMachine 12) =
     Some (Inr \<lparr>datacenter = ''DC1'', cluster = ''Cluster1''\<rparr>)"
proof -
  let ?w = "CreateContainerView lab_world"
  have o: "objs ?w = lab_objs" by (simp add: CreateContainerView_def lab_world_def)
  have "reaches_datacenter ?w (Some (MoRef Folder 5)) [MoRef Folder 5] (MoRef Datacenter 1)"
    by (simp add: o lab_objs_def)
  moreover have "objs ?w (MoRef Datacenter 1) = Some (the (lab_objs (MoRef Datacenter 1)))"
    by (simp add: o lab_objs_def)
  ultimately have "find_datacenter ?w (Some (MoRef Folder 5)) =
                     Some (Inr (name (the (lab_objs (MoRef Datacenter 1)))))"
    by (rule find_datacenter_reaches)
  then have "find_datacenter ?w (Some (MoRef Folder 5)) = Some (Inr ''DC1'')"
    by (simp add: lab_objs_def)
  then show ?thesis
    by (simp add: get_parent_info_def cluster_or_host_def fetch_def o lab_objs_def)
qed

lemma find_vm_by_mac_result_lab:
  "find_vm_by_mac_result lab_world ''00:50:56:0A:0B:0C'' =
     Some (Inr (Some (found_text ''web01'' \<lparr>datacenter = ''DC1'', cluster = ''Cluster1''\<rparr>
                        ''00-50-56-0a-0b-0c'')), lab_world)"
proof -
  have v: "vm_view lab_world = [MoRef VirtualMachine 12, MoRef VirtualMachine 13]"
    by (simp add: lab_world_def)
  have o: "fetch lab_world (MoRef VirtualMachine 12) = Inr (the (lab_objs (MoRef VirtualMachine 12)))"
    by (simp add: fetch_def lab_world_def lab_vm12)
  show ?thesis
    by (simp add: find_vm_by_mac_result_def Let_def vm_view_CreateContainerView
                  fetch_CreateContainerView Destroy_CreateContainerView v o lab_vm12
                  clean_mac_examples get_parent_info_web01_in_view)
qed

text \<open>
  The three spellings of the claim, searched in \<open>lab_world\<close>, where \<open>web01\<close> has the
  adapter \<open>00-50-56-0a-0b-0c\<close>.
\<close>

theorem mac_match_by_normal_form_witness:
  "clean_mac ''00:50:56:0A:0B:0C'' = ''0050560a0b0c'' \<and>
   clean_mac ''00-50-56-0a-0b-0c'' = ''0050560a0b0c'' \<and>
   clean_mac ''0050560A0B0C'' = ''0050560a0b0c'' \<and>
   find_vm_by_mac lab_world ''00:50:56:0A:0B:0C'' =
     Some (Inr (found_text ''web01'' \<lparr>datacenter = ''DC1'', cluster = ''Cluster1''\<rparr>
                 ''00-50-56-0a-0b-0c''), lab_world) \<and>
   find_vm_by_mac lab_world ''00-50-56-0a-0b-0c'' =
     Some (Inr (found_text ''web01'' \<lparr>datacenter = ''DC1'', cluster = ''Cluster1''\<rparr>
                 ''00-50-56-0a-0b-0c''), lab_world) \<and>
   find_vm_by_mac lab_world ''0050560A0B0C'' =
     Some (Inr (found_text ''web01'' \<lparr>datacenter = ''DC1'', cluster = ''Cluster1''\<rparr>
                 ''00-50-56-0a-0b-0c''), lab_world)"
proof -
  let ?a = "''00:50:56:0A:0B:0C''"
  have ab: "clean_mac ?a = clean_mac ''00-50-56-0a-0b-0c''"
    and ac: "clean_mac ?a = clean_mac ''0050560A0B0C''"
    by (simp_all only: clean_mac_examples)
  note b = mac_match_by_normal_form[OF ab, of lab_world, THEN conjunct2, THEN conjunct2,
             THEN conjunct1, THEN spec, THEN spec, THEN mp, OF find_vm_by_mac_result_lab]
  note c = mac_match_by_normal_form[OF ac, of lab_world, THEN conjunct2, THEN conjunct2,
             THEN conjunct1, THEN spec, THEN spec, THEN mp, OF find_vm_by_mac_result_lab]
  from b c show ?thesis
    by (simp only: clean_mac_examples)
qed

subsection \<open>Defaults of the configuration\<close>

text \<open>
  \<^verbatim>\<open>max\<close> with a key returns the first element whose key no other exceeds: the keys before
  it are smaller, the keys after it are not larger.
\<close>

lemma max_by_key_first_max:
  "max_by_key best xs = (r, k) \<Longrightarrow>
   \<exists>pre post. best # xs = pre @ (r, k) # post \<and>
     (\<forall>p\<in>set pre. snd p < k) \<and> (\<forall>p\<in>set post. snd p \<le> k)"
proof (induction xs arbitrary: best)
  case Nil
  then have "best # [] = [] @ (r, k) # []" by simp
  then show ?case by fastforce
next
  case (Cons x xs)
  show ?case
  proof (cases "snd x > snd best")
    case True
    with Cons.prems have "max_by_key x xs = (r, k)" by simp
    from Cons.IH[OF this] obtain pre post where d: "x # xs = pre @ (r, k) # post"
      and lt: "\<forall>p\<in>set pre. snd p < k" and le: "\<forall>p\<in>set post. snd p \<le> k" by blast
    have "snd x \<le> k"
    proof (cases pre)
      case Nil
      with d show ?thesis by simp
    next
      case (Cons p ps)
      with d lt show ?thesis by auto
    qed
    with True have "snd best < k" by simp
    with lt have "\<forall>p\<in>set (best # pre). snd p < k" by simp
    moreover from d have "best # x # xs = (best # pre) @ (r, k) # post" by simp
    ultimately show ?thesis using le by blast
  next
    case False
    with Cons.prems have "max_by_key best xs = (r, k)" by simp
    from Cons.IH[OF this] obtain pre post where d: "best # xs = pre @ (r, k) # post"
      and lt: "\<forall>p\<in>set pre. snd p < k" and le: "\<forall>p\<in>set post. snd p \<le> k" by blast
    show ?thesis
    proof (cases pre)
      case Nil
      with d have b: "best = (r, k)" and xs: "xs = post" by simp_all
      with False have "snd x \<le> k" by simp
      with le have "\<forall>p\<in>set (x # post). snd p \<le> k" by simp
      moreover from b xs have "best # x # xs = [] @ (r, k) # (x # post)" by simp
      ultimately show ?thesis by (metis empty_iff list.set(1))
    next
      case (Cons p ps)
      with d have b: "p = best" and xs: "xs = ps @ (r, k) # post" by simp_all
      from Cons b lt have "snd best < k" by simp
      with False have "snd x < k" by simp
      with lt Cons b have "\<forall>q\<in>set (best # x # ps). snd q < k" by simp
      moreover from xs have "best # x # xs = (best # x # ps) @ (r, k) # post" by simp
      ultimately show ?thesis using le by blast
    qed
  qed
qed

lemma free_spaces_Inr:
  "free_spaces w xs = Inr ks \<Longrightarrow>
   map fst ks = xs \<and> (\<forall>p\<in>set ks. \<exists>ob. objs w (fst p) = Some ob \<and> freeSpace ob = snd p)"
proof (induction xs arbitrary: ks)
  case Nil
  then show ?case by simp
next
  case (Cons x xs)
  then show ?case
    by (auto simp: fetch_def split: sum.splits option.splits)
qed

lemma select_datacenter_default:
  assumes "select_datacenter cfg w = Inr dc" and "\<not> truthy (cfg_datacenter cfg)"
  shows "\<exists>rootf. objs w (rootFolder w) = Some rootf \<and>
           find (\<lambda>r. isinstance r Datacenter) (childEntity rootf) = Some dc"
  using assms
  by (auto simp: select_datacenter_def fetch_def split: option.splits)

lemma select_compute_resource_default:
  assumes "select_compute_resource cfg w dc = Inr cr" and "\<not> truthy (cfg_cluster cfg)"
  shows "\<exists>dco hf. objs w dc = Some dco \<and> objs w (hostFolder dco) = Some hf \<and>
           find (\<lambda>r. isinstance r ComputeResource) (childEntity hf) = Some cr"
  using assms
  by (auto simp: select_compute_resource_def folder_children_def fetch_def
           split: option.splits)

lemma select_datastore_default:
  assumes "select_datastore cfg w dc = Inr ds" and "\<not> truthy (cfg_datastore cfg)"
  shows "\<exists>dco df pre post dso.
           objs w dc = Some dco \<and> objs w (datastoreFolder dco) = Some df \<and>
           filter (\<lambda>r. isinstance r Datastore) (childEntity df) = pre @ ds # post \<and>
           objs w ds = Some dso \<and>
           (\<forall>r\<in>set pre. \<exists>ro. objs w r = Some ro \<and> freeSpace ro < freeSpace dso) \<and>
           (\<forall>r\<in>set post. \<exists>ro. objs w r = Some ro \<and> freeSpace ro \<le> freeSpace dso)"
proof -
  from assms obtain dco df k ks where dco: "objs w dc = Some dco"
    and df: "objs w (datastoreFolder dco) = Some df"
    and fs: "free_spaces w (filter (\<lambda>r. isinstance r Datastore) (childEntity df)) = Inr (k # ks)"
    and ds: "ds = fst (max_by_key k ks)"
    by (auto simp: select_datastore_def folder_children_def fetch_def
             split: option.splits sum.splits list.splits)
  obtain r kk where m: "max_by_key k ks = (r, kk)" by (cases "max_by_key k ks")
  with ds have r: "r = ds" by simp
  from max_by_key_first_max[OF m] r obtain pre post where d: "k # ks = pre @ (ds, kk) # post"
    and lt: "\<forall>p\<in>set pre. snd p < kk" and le: "\<forall>p\<in>set post. snd p \<le> kk" by blast
  from free_spaces_Inr[OF fs]
  have mp: "map fst (k # ks) = filter (\<lambda>r. isinstance r Datastore) (childEntity df)"
    and ob: "\<forall>p\<in>set (k # ks). \<exists>ob. objs w (fst p) = Some ob \<and> freeSpace ob = snd p"
    by blast+
  from ob d obtain dso where dso: "objs w ds = Some dso" "freeSpace dso = kk"
    by (metis fst_conv in_set_conv_decomp snd_conv)
  have "filter (\<lambda>r. isinstance r Datastore) (childEntity df) = map fst pre @ ds # map fst post"
    using mp d by (metis fst_conv list.simps(9) map_append)
  moreover have "\<forall>r\<in>set (map fst pre). \<exists>ro. objs w r = Some ro \<and> freeSpace ro < freeSpace dso"
  proof
    fix x assume "x \<in> set (map fst pre)"
    then obtain p where p: "p \<in> set pre" "x = fst p" by auto
    with d have "p \<in> set (k # ks)" by (metis in_set_conv_decomp Un_iff set_append)
    with ob obtain ro where "objs w (fst p) = Some ro" "freeSpace ro = snd p" by blast
    with p lt dso show "\<exists>ro. objs w x = Some ro \<and> freeSpace ro < freeSpace dso" by auto
  qed
  moreover have "\<forall>r\<in>set (map fst post). \<exists>ro. objs w r = Some ro \<and> freeSpace ro \<le> freeSpace dso"
  proof
    fix x assume "x \<in> set (map fst post)"
    then obtain p where p: "p \<in> set post" "x = fst p" by auto
    with d have "p \<in> set (k # ks)"
      by (metis Un_iff list.set_intros(2) set_append)
    with ob obtain ro where "objs w (fst p) = Some ro" "freeSpace ro = snd p" by blast
    with p le dso show "\<exists>ro. objs w x = Some ro \<and> freeSpace ro \<le> freeSpace dso" by auto
  qed
  ultimately show ?thesis using dco df dso by blast
qed

lemma select_network_default:
  "\<not> truthy (cfg_network cfg) \<Longrightarrow> select_network cfg w dc = Inr None"
  by (simp add: select_network_def)

lemma objs_log_add: "objs (log_add r w) = objs w"
  by (simp add: log_add_def)

lemma rootFolder_log_add: "rootFolder (log_add r w) = rootFolder w"
  by (simp add: log_add_def)

lemma connect_vcenter_Inr:
  assumes "connect_vcenter cfg w = (Inr m, w')"
  shows "\<exists>w1 w2 w3 cr cro.
           objs w1 = objs w \<and> rootFolder w1 = rootFolder w \<and> objs w2 = objs w \<and>
           objs w3 = objs w \<and>
           select_datacenter cfg w1 = Inr (datacenter_obj m) \<and>
           select_compute_resource cfg w1 (datacenter_obj m) = Inr cr \<and>
           objs w cr = Some cro \<and> resourcePool cro = Some (resource_pool m) \<and>
           select_datastore cfg w2 (datacenter_obj m) = Inr (datastore_obj m) \<and>
           select_network cfg w3 (datacenter_obj m) = Inr (network_obj m)"
proof -
  let ?w1 = "log_add (LogInfo ''Successfully connected to VMware vCenter/ESXi API'') w"
  from assms obtain dc where dc: "select_datacenter cfg ?w1 = Inr dc"
    by (cases "select_datacenter cfg ?w1")
       (auto simp: connect_vcenter_def Let_def split: option.splits)
  from assms dc obtain cr where cr: "select_compute_resource cfg ?w1 dc = Inr cr"
    by (cases "select_compute_resource cfg ?w1 dc")
       (auto simp: connect_vcenter_def Let_def split: option.splits)
  from assms dc cr obtain cro where cro: "fetch ?w1 cr = Inr cro"
    by (cases "fetch ?w1 cr")
       (auto simp: connect_vcenter_def Let_def split: option.splits)
  from assms dc cr cro obtain pool where pool: "resourcePool cro = Some pool"
    by (cases "resourcePool cro")
       (auto simp: connect_vcenter_def Let_def split: option.splits)
  from assms dc cr cro pool obtain po where po: "fetch ?w1 pool = Inr po"
    by (cases "fetch ?w1 pool")
       (auto simp: connect_vcenter_def Let_def split: option.splits)
  let ?w2 = "log_add (LogInfo (''Using resource pool: '' @ name po)) ?w1"
  from assms dc cr cro pool po obtain ds where ds: "select_datastore cfg ?w2 dc = Inr ds"
    by (cases "select_datastore cfg ?w2 dc")
       (auto simp: connect_vcenter_def Let_def split: option.splits)
  from assms dc cr cro pool po ds obtain dso where dso: "fetch ?w2 ds = Inr dso"
    by (cases "fetch ?w2 ds")
       (auto simp: connect_vcenter_def Let_def split: option.splits)
  let ?w3 = "log_add (LogInfo (''Using datastore: '' @ name dso)) ?w2"
  from assms dc cr cro pool po ds dso
  have m: "datacenter_obj m = dc \<and> resource_pool m = pool \<and> datastore_obj m = ds \<and>
           select_network cfg ?w3 dc = Inr (network_obj m)"
    by (cases "select_network cfg ?w3 dc")
       (auto simp: connect_vcenter_def Let_def split: option.splits sum.splits)
  from cro have "objs w cr = Some cro"
    by (auto simp: fetch_def objs_log_add split: option.splits)
  with dc cr pool ds m show ?thesis
    by (intro exI[of _ ?w1] exI[of _ ?w2] exI[of _ ?w3] exI[of _ cr] exI[of _ cro])
       (simp add: objs_log_add rootFolder_log_add)
qed

text \<open>
  C8, as the code has it.  Whenever \<^verbatim>\<open>_connect_vcenter\<close> succeeds:
  \<^item> with no datacenter name (\<^verbatim>\<open>None\<close> or empty) the datacenter is the first
    \<^verbatim>\<open>Datacenter\<close> among the children of the root folder;
  \<^item> with no cluster name the resource pool is that of the first \<^verbatim>\<open>ComputeResource\<close>
    (cluster or stand-alone host) among the children of the datacenter's host folder;
  \<^item> with no datastore name the datastore is the first of highest free space among the
    \<^verbatim>\<open>Datastore\<close> children of the datastore folder;
  \<^item> with no network name the manager has no network object.
\<close>

theorem connect_vcenter_defaults:
  assumes "connect_vcenter cfg w = (Inr m, w')"
  shows
    "(\<not> truthy (cfg_datacenter cfg) \<longrightarrow>
        (\<exists>rootf. objs w (rootFolder w) = Some rootf \<and>
           find (\<lambda>r. isinstance r Datacenter) (childEntity rootf) = Some (datacenter_obj m))) \<and>
     (\<not> truthy (cfg_cluster cfg) \<longrightarrow>
        (\<exists>dco hf cr cro. objs w (datacenter_obj m) = Some dco \<and>
           objs w (hostFolder dco) = Some hf \<and>
           find (\<lambda>r. isinstance r ComputeResource) (childEntity hf) = Some cr \<and>
           objs w cr = Some cro \<and> resourcePool cro = Some (resource_pool m))) \<and>
     (\<not> truthy (cfg_datastore cfg) \<longrightarrow>
        (\<exists>dco df pre post dso. objs w (datacenter_obj m) = Some dco \<and>
           objs w (datastoreFolder dco) = Some df \<and>
           filter (\<lambda>r. isinstance r Datastore) (childEntity df) = pre @ datastore_obj m # post \<and>
           objs w (datastore_obj m) = Some dso \<and>
           (\<forall>r\<in>set pre. \<exists>ro. objs w r = Some ro \<and> freeSpace ro < freeSpace dso) \<and>
           (\<forall>r\<in>set post. \<exists>ro. objs w r = Some ro \<and> freeSpace ro \<le> freeSpace dso))) \<and>
     (\<not> truthy (cfg_network cfg) \<longrightarrow> network_obj m = None)"
proof -
  from connect_vcenter_Inr[OF assms] obtain w1 w2 w3 cr cro where
    o: "objs w1 = objs w" "rootFolder w1 = rootFolder w" "objs w2 = objs w" "objs w3 = objs w"
    and dc: "select_datacenter cfg w1 = Inr (datacenter_obj m)"
    and cr: "select_compute_resource cfg w1 (datacenter_obj m) = Inr cr"
    and cro: "objs w cr = Some cro" "resourcePool cro = Some (resource_pool m)"
    and ds: "select_datastore cfg w2 (datacenter_obj m) = Inr (datastore_obj m)"
    and net: "select_network cfg w3 (datacenter_obj m) = Inr (network_obj m)"
    by blast
  show ?thesis
  proof (intro conjI impI)
    assume "\<not> truthy (cfg_datacenter cfg)"
    from select_datacenter_default[OF dc this] o
    show "\<exists>rootf. objs w (rootFolder w) = Some rootf \<and>
           find (\<lambda>r. isinstance r Datacenter) (childEntity rootf) = Some (datacenter_obj m)"
      by simp
  next
    assume "\<not> truthy (cfg_cluster cfg)"
    from select_compute_resource_default[OF cr this] o cro
    show "\<exists>dco hf cr cro. objs w (datacenter_obj m) = Some dco \<and>
           objs w (hostFolder dco) = Some hf \<and>
           find (\<lambda>r. isinstance r ComputeResource) (childEntity hf) = Some cr \<and>
           objs w cr = Some cro \<and> resourcePool cro = Some (resource_pool m)"
      by auto
  next
    assume "\<not> truthy (cfg_datastore cfg)"
    from select_datastore_default[OF ds this] o
    show "\<exists>dco df pre post dso. objs w (datacenter_obj m) = Some dco \<and>
           objs w (datastoreFolder dco) = Some df \<and>
           filter (\<lambda>r. isinstance r Datastore) (childEntity df) = pre @ datastore_obj m # post \<and>
           objs w (datastore_obj m) = Some dso \<and>
           (\<forall>r\<in>set pre. \<exists>ro. objs w r = Some ro \<and> freeSpace ro < freeSpace dso) \<and>
           (\<forall>r\<in>set post. \<exists>ro. objs w r = Some ro \<and> freeSpace ro \<le> freeSpace dso)"
      by simp
  next
    assume "\<not> truthy (cfg_network cfg)"
    from select_network_default[OF this, of w3 "datacenter_obj m"] net
    show "network_obj m = None" by simp
  qed
qed

text \<open>
  Connecting to \<open>lab_world\<close> with \<open>lab_config\<close> gives \<open>lab_manager\<close>.
\<close>

lemma connect_vcenter_lab:
  "fst (connect_vcenter lab_config lab_world) = Inr lab_manager"
proof -
  let ?w1 = "log_add (LogInfo ''Successfully connected to VMware vCenter/ESXi API'') lab_world"
  have o: "objs (log_add r w) = objs w" "rootFolder (log_add r w) = rootFolder w" for r w
    by (simp_all add: log_add_def)
  have f: "fetch (log_add r w) = fetch w" for r w
    by (simp add: fetch_def o fun_eq_iff)
  have l: "objs lab_world = lab_objs" "rootFolder lab_world = MoRef Folder 0"
    "connect_fault lab_world = None"
    by (simp_all add: lab_world_def blank_world_def)
  have dc: "select_datacenter lab_config w = Inr (MoRef Datacenter 1)"
    if "objs w = lab_objs" "rootFolder w = MoRef Folder 0" for w
    using that by (simp add: select_datacenter_def fetch_def lab_config_def lab_objs_def)
  have fd: "fetch w r = (case lab_objs r of None \<Rightarrow> Inl (ManagedObjectNotFound r) | Some ob \<Rightarrow> Inr ob)"
    if "objs w = lab_objs" for w r
    using that by (simp add: fetch_def)
  have cr: "select_compute_resource lab_config w (MoRef Datacenter (Suc 0)) =
              Inr (MoRef ClusterComputeResource 6)"
    if "objs w = lab_objs" for w
    by (simp add: select_compute_resource_def folder_children_def fd[OF that] lab_config_def
                  lab_objs_def)
  have ds: "select_datastore lab_config w (MoRef Datacenter (Suc 0)) = Inr (MoRef Datastore 8)"
    if "objs w = lab_objs" for w
    by (simp add: select_datastore_def folder_children_def fd[OF that] lab_config_def
                  lab_objs_def)
  have net: "select_network lab_config w (MoRef Datacenter (Suc 0)) = Inr None" for w
    by (simp add: select_network_def lab_config_def)
  have p: "fetch w (MoRef ClusterComputeResource 6) =
             Inr (the (lab_objs (MoRef ClusterComputeResource 6)))"
      "fetch w (MoRef ResourcePool 10) = Inr (the (lab_objs (MoRef ResourcePool 10)))"
      "fetch w (MoRef Datastore 8) = Inr (the (lab_objs (MoRef Datastore 8)))"
    if "objs w = lab_objs" for w
    by (simp_all add: fd[OF that] lab_objs_def)
  have rp: "resourcePool (the (lab_objs (MoRef ClusterComputeResource 6))) =
              Some (MoRef ResourcePool 10)"
    by (simp add: lab_objs_def)
  show ?thesis
    by (simp add: connect_vcenter_def Let_def l o dc cr ds net p rp lab_manager_def)
qed

text \<open>
  The theorem at \<open>lab_world\<close>: datacenter \<open>DC1\<close>, the pool of \<open>Cluster1\<close>, the datastore
  \<open>ds2\<close> (500 free against 100 of \<open>ds1\<close>), and no network.
\<close>

theorem connect_vcenter_defaults_witness:
  "(\<exists>rootf. objs lab_world (rootFolder lab_world) = Some rootf \<and>
      find (\<lambda>r. isinstance r Datacenter) (childEntity rootf) = Some (MoRef Datacenter 1)) \<and>
   (\<exists>dco hf cr cro. objs lab_world (MoRef Datacenter 1) = Some dco \<and>
      objs lab_world (hostFolder dco) = Some hf \<and>
      find (\<lambda>r. isinstance r ComputeResource) (childEntity hf) = Some cr \<and>
      objs lab_world cr = Some cro \<and> resourcePool cro = Some (MoRef ResourcePool 10)) \<and>
   (\<exists>dco df pre post dso. objs lab_world (MoRef Datacenter 1) = Some dco \<and>
      objs lab_world (datastoreFolder dco) = Some df \<and>
      filter (\<lambda>r. isinstance r Datastore) (childEntity df) = pre @ MoRef Datastore 8 # post \<and>
      objs lab_world (MoRef Datastore 8) = Some dso \<and>
      (\<forall>r\<in>set pre. \<exists>ro. objs lab_world r = Some ro \<and> freeSpace ro < freeSpace dso) \<and>
      (\<forall>r\<in>set post. \<exists>ro. objs lab_world r = Some ro \<and> freeSpace ro \<le> freeSpace dso)) \<and>
   network_obj lab_manager = None \<and>
   fst (connect_vcenter lab_config lab_world) = Inr lab_manager"
proof -
  have c: "connect_vcenter lab_config lab_world =
             (Inr lab_manager, snd (connect_vcenter lab_config lab_world))"
    using connect_vcenter_lab by (metis prod.collapse)
  have t: "\<not> truthy (cfg_datacenter lab_config)" "\<not> truthy (cfg_cluster lab_config)"
    "\<not> truthy (cfg_datastore lab_config)" "\<not> truthy (cfg_network lab_config)"
    by (simp_all add: lab_config_def)
  have m: "datacenter_obj lab_manager = MoRef Datacenter 1"
    "resource_pool lab_manager = MoRef ResourcePool 10"
    "datastore_obj lab_manager = MoRef Datastore 8"
    by (simp_all add: lab_manager_def)
  note d = connect_vcenter_defaults[OF c]
  from d[THEN conjunct1, THEN mp, OF t(1)]
       d[THEN conjunct2, THEN conjunct1, THEN mp, OF t(2)]
       d[THEN conjunct2, THEN conjunct2, THEN conjunct1, THEN mp, OF t(3)]
       d[THEN conjunct2, THEN conjunct2, THEN conjunct2, THEN mp, OF t(4)]
       connect_vcenter_lab
  show ?thesis
    by (simp only: m)
qed

text \<open>
  Against C8 as stated: \<open>lab_world\<close> has the network \<open>VM Network\<close> in its network folder
  and \<open>lab_config\<close> names no network, yet the manager that \<^verbatim>\<open>_connect_vcenter\<close> builds has
  no network object: the first network found is not taken.
\<close>

theorem connect_vcenter_no_default_network:
  "cfg_network lab_config = None \<and>
   folder_children lab_world (MoRef Datacenter 1) networkFolder = Inr [MoRef Network 9] \<and>
   fst (connect_vcenter lab_config lab_world) = Inr lab_manager \<and>
   network_obj lab_manager = None"
proof -
  have "folder_children lab_world (MoRef Datacenter 1) networkFolder = Inr [MoRef Network 9]"
    by (simp add: folder_children_def fetch_def lab_world_def lab_objs_def)
  then show ?thesis
    by (simp add: connect_vcenter_lab) (simp add: lab_config_def lab_manager_def)
qed

end
